theory Spec2Isabelle
  imports Main "HOL-Library.Word"
begin

unbundle bit_operations_syntax

section \<open>The BMC side of the SSIF interface: data model\<close>

text \<open>
  The driver keeps one \<open>struct ssif_bmc\<close> per I2C client. Its \<open>u8\<close> fields are 8-bit
  words, so every \<open>+\<close>, \<open>-\<close> and \<open>++\<close> on them wraps as in C. The cursor
  \<open>msg_idx\<close> is a \<open>size_t\<close>, of a width the driver does not fix. It is a natural
  number here: it is reset to 0 at the start of every transaction, grows by at most one
  per byte event, and stays below 257 as long as no event reads outside an array
  (lemma \<open>msg_idx_bounded\<close>), so it never comes near the wrap-around.
  A fixed-size C array (\<open>payload[252]\<close>, \<open>response_buffer[32]\<close>) is a function from
  the index to the byte; only the indices below the array's size are meaningful, and
  every read or write of the model checks the C bound and yields \<open>None\<close> where the
  C code would touch memory outside the array.
\<close>

type_synonym u8 = "8 word"
type_synonym u32 = "32 word"

abbreviation (input) MSG_PAYLOAD_LEN_MAX :: nat where "MSG_PAYLOAD_LEN_MAX \<equiv> 252"
abbreviation (input) MAX_PAYLOAD_PER_TRANSACTION :: nat where "MAX_PAYLOAD_PER_TRANSACTION \<equiv> 32"
abbreviation (input) MAX_IPMI_DATA_PER_START_TRANSACTION :: nat where
  "MAX_IPMI_DATA_PER_START_TRANSACTION \<equiv> 30"
abbreviation (input) MAX_IPMI_DATA_PER_MIDDLE_TRANSACTION :: nat where
  "MAX_IPMI_DATA_PER_MIDDLE_TRANSACTION \<equiv> 31"

abbreviation (input) SSIF_IPMI_REQUEST :: u8 where "SSIF_IPMI_REQUEST \<equiv> 2"
abbreviation (input) SSIF_IPMI_RESPONSE :: u8 where "SSIF_IPMI_RESPONSE \<equiv> 3"
abbreviation (input) SSIF_IPMI_MULTI_PART_RESPONSE_MIDDLE :: u8 where
  "SSIF_IPMI_MULTI_PART_RESPONSE_MIDDLE \<equiv> 9"

text \<open>\<open>struct ssif_msg\<close>, packed: 1 + 1 + 1 + 252 = 255 bytes.\<close>

record ssif_msg =
  len :: u8
  netfn_lun :: u8
  cmd :: u8
  payload :: "nat \<Rightarrow> u8"

abbreviation (input) sizeof_ssif_msg :: nat where "sizeof_ssif_msg \<equiv> 255"

definition ssif_msg_len :: "ssif_msg \<Rightarrow> nat" where
  "ssif_msg_len m = unat (len m) + 1"

text \<open>\<open>memset(&msg, 0, sizeof(struct ssif_msg))\<close>.\<close>

definition zero_msg :: ssif_msg where
  "zero_msg = \<lparr>len = 0, netfn_lun = 0, cmd = 0, payload = (\<lambda>_. 0)\<rparr>"

text \<open>
  The handlers cast a message to \<open>u8 *buf\<close> and index it. \<open>msg_byte m i\<close> is
  \<open>buf[i]\<close> as a read, \<open>msg_set_byte m i v\<close> is \<open>buf[i] = v\<close>; both are \<open>None\<close>
  outside the 255 bytes of the struct.
\<close>

definition msg_byte :: "ssif_msg \<Rightarrow> nat \<Rightarrow> u8 option" where
  "msg_byte m i =
     (if i = 0 then Some (len m)
      else if i = 1 then Some (netfn_lun m)
      else if i = 2 then Some (cmd m)
      else if i < sizeof_ssif_msg then Some (payload m (i - 3))
      else None)"

text \<open>The byte at offset \<open>i\<close> of the packed struct, for \<open>i\<close> inside it.\<close>

definition msg_buf :: "ssif_msg \<Rightarrow> nat \<Rightarrow> u8" where
  "msg_buf m i =
     (if i = 0 then len m
      else if i = 1 then netfn_lun m
      else if i = 2 then cmd m
      else payload m (i - 3))"

definition msg_set_byte :: "ssif_msg \<Rightarrow> nat \<Rightarrow> u8 \<Rightarrow> ssif_msg option" where
  "msg_set_byte m i v =
     (if i = 0 then Some (m\<lparr>len := v\<rparr>)
      else if i = 1 then Some (m\<lparr>netfn_lun := v\<rparr>)
      else if i = 2 then Some (m\<lparr>cmd := v\<rparr>)
      else if i < sizeof_ssif_msg then Some (m\<lparr>payload := (payload m)(i - 3 := v)\<rparr>)
      else None)"

text \<open>
  \<open>struct ssif_bmc\<close>. \<open>intr_ctrl_reg\<close> is the interrupt control register of the
  I2C bus the client sits on (\<open>i2c_bus->base + ASPEED_I2C_INTR_CTRL_REG\<close>), the only
  part of \<open>struct aspeed_i2c_bus\<close> the driver touches. \<open>wake_ups\<close> counts the calls of
  \<open>wake_up_all\<close> on the wait queue and \<open>err_log\<close> collects the SMBus commands
  reported by \<open>pr_err\<close>; the spin lock and the file mutex guard a state that is
  passed explicitly here and have no field.
\<close>

record ssif_bmc =
  intr_ctrl_reg :: u32
  smbus_cmd :: u8
  request :: ssif_msg
  request_available :: bool
  response :: ssif_msg
  response_in_progress :: bool
  response_buffer :: "nat \<Rightarrow> u8"
  is_multi_part :: bool
  middle_start_response :: bool
  num_bytes_processed :: u8
  remain_data_len :: u8
  block_num :: u8
  msg_idx :: nat
  wake_ups :: nat
  err_log :: "u8 list"

datatype i2c_slave_event =
  I2C_SLAVE_READ_REQUESTED
| I2C_SLAVE_WRITE_REQUESTED
| I2C_SLAVE_READ_PROCESSED
| I2C_SLAVE_WRITE_RECEIVED
| I2C_SLAVE_STOP

datatype errno = EAGAIN | ERESTARTSYS

text \<open>
  What a call from the file interface does: it returns a value, fails with an error
  number, or goes to sleep on the wait queue (it has not returned; it runs again from
  \<open>try_again\<close> when it is woken).
\<close>

datatype 'a outcome = Returned 'a | Failed errno | Sleeping

section \<open>The I2C slave capability\<close>

abbreviation (input) ASPEED_I2CD_INTR_SLAVE_MATCH :: u32 where "ASPEED_I2CD_INTR_SLAVE_MATCH \<equiv> 128"
abbreviation (input) ASPEED_I2CD_INTR_RX_DONE :: u32 where "ASPEED_I2CD_INTR_RX_DONE \<equiv> 4"

definition aspeed_i2c_disable_interrupt :: "ssif_bmc \<Rightarrow> u32 \<Rightarrow> ssif_bmc" where
  "aspeed_i2c_disable_interrupt s msk = s\<lparr>intr_ctrl_reg := intr_ctrl_reg s AND NOT msk\<rparr>"

definition aspeed_i2c_disable_slave :: "ssif_bmc \<Rightarrow> ssif_bmc" where
  "aspeed_i2c_disable_slave s =
     aspeed_i2c_disable_interrupt
       (aspeed_i2c_disable_interrupt s ASPEED_I2CD_INTR_RX_DONE)
       ASPEED_I2CD_INTR_SLAVE_MATCH"

definition wake_up_all :: "ssif_bmc \<Rightarrow> ssif_bmc" where
  "wake_up_all s = s\<lparr>wake_ups := Suc (wake_ups s)\<rparr>"

definition pr_err :: "ssif_bmc \<Rightarrow> ssif_bmc" where
  "pr_err s = s\<lparr>err_log := err_log s @ [smbus_cmd s]\<rparr>"

section \<open>The request/response exchange point\<close>

text \<open>
  Modelled from the spec: \<open>wait_event_interruptible\<close>, a macro of the kernel's wait
  queues that is not part of the driver. With the condition true it returns 0 at once;
  with the condition false the caller is suspended until it becomes true or the wait is
  interrupted, and an interrupted wait fails (\<open>-ERESTARTSYS\<close>). \<open>signal\<close> says
  whether a signal is pending for the caller.
\<close>

definition wait_event_interruptible :: "bool \<Rightarrow> bool \<Rightarrow> unit outcome" where
  "wait_event_interruptible condition signal =
     (if condition then Returned ()
      else if signal then Failed ERESTARTSYS
      else Sleeping)"

text \<open>
  \<open>receive_ssif_bmc_request\<close>. The state is passed explicitly, so nothing changes it
  between the wait and the check under the lock: after a wait that returned 0 the
  request is available, and the \<open>goto try_again\<close> of the blocking path is the wait
  itself.
\<close>

definition receive_ssif_bmc_request ::
  "ssif_bmc \<Rightarrow> bool \<Rightarrow> bool \<Rightarrow> ssif_msg outcome \<times> ssif_bmc" where
  "receive_ssif_bmc_request s non_blocking signal =
     (case (if \<not> non_blocking then wait_event_interruptible (request_available s) signal
            else Returned ()) of
        Failed e \<Rightarrow> (Failed e, s)
      | Sleeping \<Rightarrow> (Sleeping, s)
      | Returned _ \<Rightarrow>
          if \<not> request_available s then (Failed EAGAIN, s)
          else (Returned (request s), s\<lparr>request_available := False\<rparr>))"

definition send_ssif_bmc_response ::
  "ssif_bmc \<Rightarrow> bool \<Rightarrow> bool \<Rightarrow> ssif_msg \<Rightarrow> unit outcome \<times> ssif_bmc" where
  "send_ssif_bmc_response s non_blocking signal resp =
     (case (if \<not> non_blocking
            then wait_event_interruptible (\<not> response_in_progress s) signal
            else Returned ()) of
        Failed e \<Rightarrow> (Failed e, s)
      | Sleeping \<Rightarrow> (Sleeping, s)
      | Returned _ \<Rightarrow>
          if response_in_progress s then (Failed EAGAIN, s)
          else (Returned (),
                s\<lparr>response := resp,
                  response_in_progress := True,
                  is_multi_part := (ssif_msg_len resp > MAX_PAYLOAD_PER_TRANSACTION + 1)\<rparr>))"

section \<open>Request and response completion\<close>

definition handle_request :: "ssif_bmc \<Rightarrow> ssif_bmc" where
  "handle_request s =
     wake_up_all ((aspeed_i2c_disable_slave s)\<lparr>request_available := True, response := zero_msg\<rparr>)"

definition complete_response :: "ssif_bmc \<Rightarrow> ssif_bmc" where
  "complete_response s =
     wake_up_all
       (s\<lparr>response := (response s)\<lparr>len := 0\<rparr>,
          response_in_progress := False,
          num_bytes_processed := 0,
          remain_data_len := 0,
          response_buffer := (\<lambda>_. 0)\<rparr>)"

section \<open>The response segmentation engine\<close>

text \<open>
  \<open>memcpy(dst + doff, src + soff, n)\<close> on arrays: the \<open>n\<close> bytes from \<open>doff\<close> on are
  replaced, every other byte of \<open>dst\<close> keeps its value.
\<close>

definition memcpy ::
  "(nat \<Rightarrow> u8) \<Rightarrow> nat \<Rightarrow> (nat \<Rightarrow> u8) \<Rightarrow> nat \<Rightarrow> nat \<Rightarrow> (nat \<Rightarrow> u8)" where
  "memcpy dst doff src soff n =
     (\<lambda>i. if doff \<le> i \<and> i < doff + n then src (soff + (i - doff)) else dst i)"

text \<open>
  \<open>set_response_buffer\<close>. The Start branch reads \<open>payload[0..27]\<close>, always inside the
  array. The Middle/End branch reads \<open>response_data_len\<close> bytes from
  \<open>payload + 1 + num_bytes_processed\<close>, which leaves the array when the cursor is too
  far: that is \<open>None\<close>. The destination always fits the 32 bytes of the buffer.
\<close>

definition set_response_buffer :: "ssif_bmc \<Rightarrow> ssif_bmc option" where
  "set_response_buffer s =
     (if smbus_cmd s = SSIF_IPMI_RESPONSE then
        Some (s\<lparr>response_buffer :=
                   memcpy ((response_buffer s)
                             (0 := 0, 1 := 1,
                              2 := netfn_lun (response s),
                              3 := cmd (response s),
                              4 := payload (response s) 0))
                          5 (payload (response s)) 1 (MAX_PAYLOAD_PER_TRANSACTION - 5),
                num_bytes_processed :=
                   num_bytes_processed s + of_nat (MAX_PAYLOAD_PER_TRANSACTION - 5)\<rparr>)
      else if smbus_cmd s = SSIF_IPMI_MULTI_PART_RESPONSE_MIDDLE then
        (let response_data_len =
               (if unat (remain_data_len s) < MAX_IPMI_DATA_PER_MIDDLE_TRANSACTION
                then remain_data_len s
                else of_nat MAX_IPMI_DATA_PER_MIDDLE_TRANSACTION)
         in if response_data_len = 0
               \<or> 1 + unat (num_bytes_processed s) + unat response_data_len \<le> MSG_PAYLOAD_LEN_MAX
            then Some (s\<lparr>response_buffer :=
                          memcpy ((response_buffer s)(0 := block_num s))
                                 1 (payload (response s))
                                 (1 + unat (num_bytes_processed s)) (unat response_data_len),
                         num_bytes_processed := num_bytes_processed s + response_data_len\<rparr>)
            else None)
      else Some (pr_err s))"

section \<open>The byte-event state machine\<close>

text \<open>
  The handlers take the state and the byte \<open>*val\<close> and return the new state and the
  new \<open>*val\<close>; a branch that does not assign \<open>*val\<close> returns it unchanged.
\<close>

definition event_request_read :: "ssif_bmc \<Rightarrow> u8 \<Rightarrow> (ssif_bmc \<times> u8) option" where
  "event_request_read s val =
     (let data_len = len (response s) in
      if \<not> is_multi_part s then
        (case msg_byte (response s) (msg_idx s) of
           None \<Rightarrow> None
         | Some b \<Rightarrow> Some (s, if b = 0 then 1 else b))
      else if smbus_cmd s = SSIF_IPMI_RESPONSE then
        (let s1 = s\<lparr>remain_data_len := data_len - of_nat MAX_IPMI_DATA_PER_START_TRANSACTION,
                    block_num := 0\<rparr>;
             s2 = (if unat (remain_data_len s1) > MAX_IPMI_DATA_PER_MIDDLE_TRANSACTION
                   then s1\<lparr>middle_start_response := True\<rparr> else s1)
         in map_option (\<lambda>s'. (s', of_nat MAX_PAYLOAD_PER_TRANSACTION)) (set_response_buffer s2))
      else if smbus_cmd s = SSIF_IPMI_MULTI_PART_RESPONSE_MIDDLE then
        (if unat (remain_data_len s) \<le> MAX_IPMI_DATA_PER_MIDDLE_TRANSACTION then
           map_option (\<lambda>s'. (s', remain_data_len s + 1))
             (set_response_buffer (s\<lparr>block_num := 0xFF\<rparr>))
         else
           (let s1 = (if \<not> middle_start_response s
                      then s\<lparr>block_num := block_num s + 1\<rparr>
                      else s\<lparr>block_num := 0, middle_start_response := False\<rparr>);
                s2 = s1\<lparr>remain_data_len :=
                           remain_data_len s1 - of_nat MAX_IPMI_DATA_PER_MIDDLE_TRANSACTION\<rparr>
            in map_option (\<lambda>s'. (s', of_nat MAX_PAYLOAD_PER_TRANSACTION))
                 (set_response_buffer s2)))
      else map_option (\<lambda>s'. (s', val)) (set_response_buffer (pr_err s)))"

definition event_process_read :: "ssif_bmc \<Rightarrow> u8 \<Rightarrow> (ssif_bmc \<times> u8) option" where
  "event_process_read s val =
     (if \<not> is_multi_part s then
        (let r = (if len (response s) \<noteq> 0 \<and> msg_idx s < ssif_msg_len (response s)
                  then (case msg_byte (response s) (msg_idx s + 1) of
                          None \<Rightarrow> None
                        | Some b \<Rightarrow> Some (s\<lparr>msg_idx := msg_idx s + 1\<rparr>, b))
                  else Some (s, 0))
         in case r of
              None \<Rightarrow> None
            | Some (s1, b) \<Rightarrow>
                Some (if msg_idx s1 + 1 \<ge> ssif_msg_len (response s1)
                      then complete_response s1 else s1, b))
      else
        (let r = (if smbus_cmd s = SSIF_IPMI_RESPONSE
                     \<or> smbus_cmd s = SSIF_IPMI_MULTI_PART_RESPONSE_MIDDLE
                  then (if msg_idx s < MAX_PAYLOAD_PER_TRANSACTION
                        then Some (s\<lparr>msg_idx := msg_idx s + 1\<rparr>, response_buffer s (msg_idx s))
                        else None)
                  else Some (pr_err s, val))
         in case r of
              None \<Rightarrow> None
            | Some (s1, b) \<Rightarrow>
                Some (if block_num s1 = 0xFF \<and> msg_idx s1 > unat (remain_data_len s1)
                      then complete_response s1 else s1, b)))"

text \<open>\<open>ssif_bmc_cb\<close>, the callback of the I2C slave; it always returns 0.\<close>

definition ssif_bmc_cb :: "ssif_bmc \<Rightarrow> i2c_slave_event \<Rightarrow> u8 \<Rightarrow> (ssif_bmc \<times> u8) option" where
  "ssif_bmc_cb s event val =
     (case event of
        I2C_SLAVE_READ_REQUESTED \<Rightarrow> event_request_read (s\<lparr>msg_idx := 0\<rparr>) val
      | I2C_SLAVE_WRITE_REQUESTED \<Rightarrow> Some (s\<lparr>msg_idx := 0\<rparr>, val)
      | I2C_SLAVE_READ_PROCESSED \<Rightarrow> event_process_read s val
      | I2C_SLAVE_WRITE_RECEIVED \<Rightarrow>
          if msg_idx s = 0 then Some (s\<lparr>smbus_cmd := val, msg_idx := msg_idx s + 1\<rparr>, val)
          else if msg_idx s \<ge> sizeof_ssif_msg then Some (s, val)
          else (case msg_set_byte (request s) (msg_idx s - 1) val of
                  None \<Rightarrow> None
                | Some r \<Rightarrow>
                    (let s1 = s\<lparr>request := r, msg_idx := msg_idx s + 1\<rparr>
                     in Some (if msg_idx s1 - 1 \<ge> ssif_msg_len (request s1)
                              then handle_request s1 else s1, val)))
      | I2C_SLAVE_STOP \<Rightarrow> Some (s\<lparr>msg_idx := 0\<rparr>, val))"

section \<open>Driving the state machine\<close>

text \<open>
  The I2C master's side: a list of events, each with the byte on the bus (the byte
  written for a write event). \<open>run\<close> feeds them to the callback in order and collects
  the bytes the slave supplies on the read events.
\<close>

fun is_read :: "i2c_slave_event \<Rightarrow> bool" where
  "is_read I2C_SLAVE_READ_REQUESTED = True"
| "is_read I2C_SLAVE_READ_PROCESSED = True"
| "is_read _ = False"

fun run :: "ssif_bmc \<Rightarrow> (i2c_slave_event \<times> u8) list \<Rightarrow> (ssif_bmc \<times> u8 list) option" where
  "run s [] = Some (s, [])"
| "run s ((ev, v) # es) =
     (case ssif_bmc_cb s ev v of
        None \<Rightarrow> None
      | Some (s', b) \<Rightarrow>
          (case run s' es of
             None \<Rightarrow> None
           | Some (s'', out) \<Rightarrow> Some (s'', (if is_read ev then [b] else []) @ out)))"

section \<open>Initial state, wire format and bus transactions\<close>

text \<open>
  \<open>ssif_bmc_probe\<close> allocates the state with \<open>devm_kzalloc\<close>, which zeroes it, and
  sets both flags to false; \<open>reg\<close> is what the bus's interrupt control register
  holds at that moment.
\<close>

definition ssif_bmc_probe :: "u32 \<Rightarrow> ssif_bmc" where
  "ssif_bmc_probe reg =
     \<lparr>intr_ctrl_reg = reg, smbus_cmd = 0, request = zero_msg, request_available = False,
      response = zero_msg, response_in_progress = False, response_buffer = (\<lambda>_. 0),
      is_multi_part = False, middle_start_response = False, num_bytes_processed = 0,
      remain_data_len = 0, block_num = 0, msg_idx = 0, wake_ups = 0, err_log = []\<rparr>"

text \<open>
  The bytes of a message on the wire, \<open>[len][netfn_lun][cmd][payload...]\<close>: the length
  byte and the \<open>len\<close> bytes it announces.
\<close>

definition wire_bytes :: "ssif_msg \<Rightarrow> u8 list" where
  "wire_bytes m =
     len m # netfn_lun m # cmd m # map (payload m) [0 ..< unat (len m) - 2]"

text \<open>
  An SMBus block read as the slave sees it: the master writes the command byte \<open>c\<close>,
  turns the bus around, reads the byte count and then \<open>n\<close> more bytes, and stops.
\<close>

definition block_read :: "u8 \<Rightarrow> nat \<Rightarrow> (i2c_slave_event \<times> u8) list" where
  "block_read c n =
     (I2C_SLAVE_WRITE_REQUESTED, 0) # (I2C_SLAVE_WRITE_RECEIVED, c) #
     (I2C_SLAVE_READ_REQUESTED, 0) # replicate n (I2C_SLAVE_READ_PROCESSED, 0) @
     [(I2C_SLAVE_STOP, 0)]"

text \<open>An SMBus block write: the command byte, then the bytes \<open>bs\<close>, then stop.\<close>

definition block_write :: "u8 \<Rightarrow> u8 list \<Rightarrow> (i2c_slave_event \<times> u8) list" where
  "block_write c bs =
     (I2C_SLAVE_WRITE_REQUESTED, 0) # (I2C_SLAVE_WRITE_RECEIVED, c) #
     map (Pair I2C_SLAVE_WRITE_RECEIVED) bs @ [(I2C_SLAVE_STOP, 0)]"

text \<open>
  The one place where the callback calls \<open>handle_request\<close>: a write event past the
  command byte, inside the struct, after which the bytes written reach the length the
  request announces.
\<close>

definition completes_request :: "ssif_bmc \<Rightarrow> i2c_slave_event \<Rightarrow> u8 \<Rightarrow> bool" where
  "completes_request s ev v =
     (ev = I2C_SLAVE_WRITE_RECEIVED \<and> 0 < msg_idx s \<and> msg_idx s < sizeof_ssif_msg \<and>
      (case msg_set_byte (request s) (msg_idx s - 1) v of
         None \<Rightarrow> False
       | Some r \<Rightarrow> ssif_msg_len r \<le> msg_idx s))"

fun no_request_completes :: "ssif_bmc \<Rightarrow> (i2c_slave_event \<times> u8) list \<Rightarrow> bool" where
  "no_request_completes s [] = True"
| "no_request_completes s ((ev, v) # es) =
     (\<not> completes_request s ev v \<and>
      (case ssif_bmc_cb s ev v of
         None \<Rightarrow> True
       | Some (s', b) \<Rightarrow> no_request_completes s' es))"

text \<open>A message for the examples: header \<open>0xA0 0xB0\<close>, payload \<open>1, 2, 3, ...\<close>.\<close>

definition demo_msg :: "nat \<Rightarrow> ssif_msg" where
  "demo_msg L =
     \<lparr>len = of_nat L, netfn_lun = 0xA0, cmd = 0xB0,
      payload = (\<lambda>i. if i < L - 2 then of_nat (i + 1) else 0)\<rparr>"

text \<open>States for the examples below.\<close>

definition busy_state :: ssif_bmc where
  "busy_state = (ssif_bmc_probe 0xFFFF)\<lparr>response := demo_msg 5, response_in_progress := True\<rparr>"

definition ready_state :: ssif_bmc where
  "ready_state = (ssif_bmc_probe 0xFF7B)\<lparr>request := demo_msg 3, request_available := True\<rparr>"

text \<open>
  The write of a request \<open>[2][0x20][0x01]\<close> just before its last byte arrives, and a
  write that has run over the end of the struct.
\<close>

definition assembling_state :: ssif_bmc where
  "assembling_state =
     (ssif_bmc_probe 0xFFFF)
       \<lparr>smbus_cmd := 2, request := zero_msg\<lparr>len := 2, netfn_lun := 0x20\<rparr>,
        response := demo_msg 5, msg_idx := 3\<rparr>"

definition overflow_state :: ssif_bmc where
  "overflow_state = (ssif_bmc_probe 0xFFFF)\<lparr>smbus_cmd := 2, msg_idx := 256\<rparr>"

text \<open>
  The End chunk of the 40-byte response \<open>demo_msg 39\<close> with nine of its ten bytes
  read: the block number and eight bytes of data have gone out, the last byte is next.
\<close>

definition last_byte_state :: ssif_bmc where
  "last_byte_state =
     (ssif_bmc_probe 0xFFFF)
       \<lparr>smbus_cmd := 9, response := demo_msg 39, response_in_progress := True,
        response_buffer :=
          (\<lambda>i. if i = 0 then 0xFF else if i < 10 then of_nat (i + 28)
               else if i < 32 then of_nat (i - 3) else 0),
        is_multi_part := True, num_bytes_processed := 36, remain_data_len := 9,
        block_num := 0xFF, msg_idx := 9\<rparr>"

text \<open>
  The state after the block write \<open>[0x02][0x03][0x20][0x01]\<close>, whose length byte
  announces one byte more than was sent, and after the block write
  \<open>[0x02][0x02][0x20][0x01]\<close>, a complete request.
\<close>

definition stalled_state :: ssif_bmc where
  "stalled_state =
     (ssif_bmc_probe 0xFFFF)
       \<lparr>smbus_cmd := 2, request := zero_msg\<lparr>len := 3, netfn_lun := 0x20, cmd := 1\<rparr>\<rparr>"

definition received_state :: ssif_bmc where
  "received_state =
     (ssif_bmc_probe 0xFF7B)
       \<lparr>smbus_cmd := 2, request := zero_msg\<lparr>len := 2, netfn_lun := 0x20, cmd := 1\<rparr>,
        request_available := True, wake_ups := 1\<rparr>"

section \<open>Running event lists\<close>

lemma run_append:
  "run s (xs @ ys) =
     (case run s xs of
        None \<Rightarrow> None
      | Some (s', o1) \<Rightarrow>
          (case run s' ys of None \<Rightarrow> None | Some (s'', o2) \<Rightarrow> Some (s'', o1 @ o2)))"
  by (induction xs arbitrary: s) (auto split: option.splits)

text \<open>The cursor stays small: no event that stays inside the arrays takes it past 256.\<close>

lemma msg_idx_bounded:
  assumes "ssif_bmc_cb s ev v = Some (s', b)" and "msg_idx s \<le> 256"
  shows "msg_idx s' \<le> 256"
proof (cases ev)
  case I2C_SLAVE_READ_REQUESTED
  with assms(1) show ?thesis
    by (auto simp: ssif_bmc_cb_def event_request_read_def set_response_buffer_def pr_err_def
                   Let_def
             split: if_splits option.splits)
next
  case I2C_SLAVE_WRITE_REQUESTED
  with assms(1) show ?thesis by (auto simp: ssif_bmc_cb_def)
next
  case I2C_SLAVE_READ_PROCESSED
  with assms show ?thesis
    by (auto simp: ssif_bmc_cb_def event_process_read_def complete_response_def
                   wake_up_all_def pr_err_def msg_byte_def Let_def
             split: if_splits option.splits)
next
  case I2C_SLAVE_WRITE_RECEIVED
  with assms show ?thesis
    by (auto simp: ssif_bmc_cb_def handle_request_def wake_up_all_def
                   aspeed_i2c_disable_slave_def aspeed_i2c_disable_interrupt_def Let_def
             split: if_splits option.splits)
next
  case I2C_SLAVE_STOP
  with assms(1) show ?thesis by (auto simp: ssif_bmc_cb_def)
qed

lemma unat_u8_bound: "unat (x :: u8) < 256"
  using unsigned_less [of x, where 'a = nat] by simp

lemma msg_byte_buf: "i < sizeof_ssif_msg \<Longrightarrow> msg_byte m i = Some (msg_buf m i)"
  by (simp add: msg_byte_def msg_buf_def)

lemma wire_bytes_buf:
  assumes "2 \<le> unat (len m)"
  shows "wire_bytes m = map (msg_buf m) [0 ..< ssif_msg_len m]"
proof -
  define n where "n = unat (len m) - 2"
  have L: "ssif_msg_len m = 3 + n"
    using assms by (simp add: ssif_msg_len_def n_def)
  have "[0 ..< 3 + n] = [0 ..< 3] @ [3 ..< 3 + n]"
    using upt_add_eq_append [of 0 3 n] by simp
  moreover have "[0 ..< 3] = [0, 1, 2]"
    by code_simp
  moreover have "[3 ..< 3 + n] = map (\<lambda>i. i + 3) [0 ..< n]"
    using map_add_upt [of 3 n] by (simp add: add.commute)
  ultimately have "[0 ..< 3 + n] = 0 # 1 # 2 # map (\<lambda>i. i + 3) [0 ..< n]"
    by simp
  then have "map (msg_buf m) [0 ..< 3 + n] =
               len m # netfn_lun m # cmd m # map (payload m) [0 ..< n]"
    by (simp add: msg_buf_def comp_def)
  then show ?thesis
    by (simp add: wire_bytes_def L n_def)
qed

section \<open>The exchange point\<close>

text \<open>
  Claim C6. While a response is in progress, a non-blocking
  \<open>send_ssif_bmc_response\<close> fails with \<open>EAGAIN\<close> and returns the state it was given:
  no field of the pending response, no flag and no cursor is modified.
\<close>

theorem send_response_would_block:
  assumes "response_in_progress s"
  shows "send_ssif_bmc_response s True signal resp = (Failed EAGAIN, s)"
  using assms by (simp add: send_ssif_bmc_response_def)

theorem send_response_would_block_witness:
  "response_in_progress busy_state \<and>
   send_ssif_bmc_response busy_state True False (demo_msg 40) = (Failed EAGAIN, busy_state)"
proof -
  have h: "response_in_progress busy_state"
    by (simp add: busy_state_def)
  from send_response_would_block [OF h, of False "demo_msg 40"] h show ?thesis
    by simp
qed

text \<open>
  With no response in progress the send goes through, blocking or not: the message
  becomes the pending response, marked multi-part from a length field of 33 on (34
  bytes on the wire).
\<close>

lemma send_response_accepted:
  assumes "\<not> response_in_progress s"
  shows "send_ssif_bmc_response s non_blocking signal resp =
           (Returned (),
            s\<lparr>response := resp, response_in_progress := True,
              is_multi_part := (33 \<le> unat (len resp))\<rparr>)"
proof -
  have "(33 < ssif_msg_len resp) = (33 \<le> unat (len resp))"
    by (auto simp: ssif_msg_len_def)
  with assms show ?thesis
    by (simp add: send_ssif_bmc_response_def wait_event_interruptible_def)
qed

text \<open>
  Among the bus events only a write event that completes a request changes
  \<open>request_available\<close>.
\<close>

lemma cb_request_available:
  assumes "ssif_bmc_cb s ev v = Some (s', b)" and "\<not> completes_request s ev v"
  shows "request_available s' = request_available s"
proof (cases ev)
  case I2C_SLAVE_READ_REQUESTED
  with assms(1) show ?thesis
    by (auto simp: ssif_bmc_cb_def event_request_read_def set_response_buffer_def pr_err_def
                   Let_def
             split: if_splits option.splits)
next
  case I2C_SLAVE_WRITE_REQUESTED
  with assms(1) show ?thesis by (auto simp: ssif_bmc_cb_def)
next
  case I2C_SLAVE_READ_PROCESSED
  with assms(1) show ?thesis
    by (auto simp: ssif_bmc_cb_def event_process_read_def complete_response_def
                   wake_up_all_def pr_err_def Let_def
             split: if_splits option.splits)
next
  case I2C_SLAVE_WRITE_RECEIVED
  with assms show ?thesis
    by (auto simp: ssif_bmc_cb_def completes_request_def Let_def
             split: if_splits option.splits)
next
  case I2C_SLAVE_STOP
  with assms(1) show ?thesis by (auto simp: ssif_bmc_cb_def)
qed

lemma cb_completes_request:
  assumes "ssif_bmc_cb s ev v = Some (s', b)" and "completes_request s ev v"
  shows "request_available s'"
  using assms
  by (auto simp: ssif_bmc_cb_def completes_request_def handle_request_def wake_up_all_def
                 aspeed_i2c_disable_slave_def aspeed_i2c_disable_interrupt_def Let_def
           split: if_splits option.splits)

lemma run_request_available:
  "no_request_completes s es \<Longrightarrow> run s es = Some (t, out) \<Longrightarrow>
   request_available t = request_available s"
proof (induction es arbitrary: s out)
  case Nil
  then show ?case by simp
next
  case (Cons e es)
  obtain ev v where e: "e = (ev, v)" by (cases e)
  from Cons.prems(2) e obtain s1 b out1 where
    step: "ssif_bmc_cb s ev v = Some (s1, b)" and rest: "run s1 es = Some (t, out1)"
    by (auto split: option.splits)
  from Cons.prems(1) e step
  have nc: "\<not> completes_request s ev v" and nr: "no_request_completes s1 es"
    by auto
  from Cons.IH [OF nr rest] cb_request_available [OF step nc] show ?case by simp
qed

text \<open>
  Claim C7. A \<open>receive_ssif_bmc_request\<close> that succeeds returns a copy of the
  pending request and clears \<open>request_available\<close>. A non-blocking receive right after
  it fails with \<open>EAGAIN\<close>, and so does one after any run of bus events in which no
  request completes; the event that completes a request sets \<open>request_available\<close>
  again.
\<close>

theorem receive_request_single_slot:
  assumes "receive_ssif_bmc_request s non_blocking signal = (Returned m, s1)"
  shows "m = request s \<and> \<not> request_available s1 \<and>
         receive_ssif_bmc_request s1 True sig1 = (Failed EAGAIN, s1) \<and>
         (\<forall>es s2 out. no_request_completes s1 es \<and> run s1 es = Some (s2, out) \<longrightarrow>
            receive_ssif_bmc_request s2 True sig2 = (Failed EAGAIN, s2)) \<and>
         (\<forall>t ev v t' b. completes_request t ev v \<and> ssif_bmc_cb t ev v = Some (t', b) \<longrightarrow>
            request_available t')"
proof -
  from assms have m: "m = request s" and s1: "s1 = s\<lparr>request_available := False\<rparr>"
    by (auto simp: receive_ssif_bmc_request_def wait_event_interruptible_def
             split: if_splits outcome.splits)
  have na: "\<not> request_available s1" using s1 by simp
  have fail: "receive_ssif_bmc_request t True sg = (Failed EAGAIN, t)"
    if "\<not> request_available t" for t sg
    using that by (simp add: receive_ssif_bmc_request_def)
  have later: "receive_ssif_bmc_request s2 True sig2 = (Failed EAGAIN, s2)"
    if "no_request_completes s1 es" and "run s1 es = Some (s2, out)" for es s2 out
    using run_request_available [OF that] na fail by simp
  show ?thesis
    using m na fail [OF na] later cb_completes_request by blast
qed

theorem receive_request_single_slot_witness:
  "receive_ssif_bmc_request ready_state True False =
     (Returned (demo_msg 3), ready_state\<lparr>request_available := False\<rparr>) \<and>
   no_request_completes (ready_state\<lparr>request_available := False\<rparr>) [(I2C_SLAVE_STOP, 0)] \<and>
   run (ready_state\<lparr>request_available := False\<rparr>) [(I2C_SLAVE_STOP, 0)] =
     Some (ready_state\<lparr>request_available := False, msg_idx := 0\<rparr>, []) \<and>
   receive_ssif_bmc_request (ready_state\<lparr>request_available := False\<rparr>) True False =
     (Failed EAGAIN, ready_state\<lparr>request_available := False\<rparr>) \<and>
   receive_ssif_bmc_request (ready_state\<lparr>request_available := False, msg_idx := 0\<rparr>) True False =
     (Failed EAGAIN, ready_state\<lparr>request_available := False, msg_idx := 0\<rparr>) \<and>
   completes_request assembling_state I2C_SLAVE_WRITE_RECEIVED 1 \<and>
   ssif_bmc_cb assembling_state I2C_SLAVE_WRITE_RECEIVED 1 =
     Some (handle_request
             (assembling_state
                \<lparr>request := zero_msg\<lparr>len := 2, netfn_lun := 0x20, cmd := 1\<rparr>, msg_idx := 4\<rparr>), 1) \<and>
   request_available
     (handle_request
        (assembling_state
           \<lparr>request := zero_msg\<lparr>len := 2, netfn_lun := 0x20, cmd := 1\<rparr>, msg_idx := 4\<rparr>))"
proof -
  have h1: "receive_ssif_bmc_request ready_state True False =
              (Returned (demo_msg 3), ready_state\<lparr>request_available := False\<rparr>)"
    by (simp add: receive_ssif_bmc_request_def ready_state_def)
  have h2: "no_request_completes (ready_state\<lparr>request_available := False\<rparr>)
              [(I2C_SLAVE_STOP, 0)]"
    by (simp add: completes_request_def ssif_bmc_cb_def)
  have h3: "run (ready_state\<lparr>request_available := False\<rparr>) [(I2C_SLAVE_STOP, 0)] =
              Some (ready_state\<lparr>request_available := False, msg_idx := 0\<rparr>, [])"
    by (simp add: ssif_bmc_cb_def)
  have h4: "completes_request assembling_state I2C_SLAVE_WRITE_RECEIVED 1"
    by (simp add: completes_request_def assembling_state_def msg_set_byte_def ssif_msg_len_def
                  zero_msg_def)
  have h5: "ssif_bmc_cb assembling_state I2C_SLAVE_WRITE_RECEIVED 1 =
     Some (handle_request
             (assembling_state
                \<lparr>request := zero_msg\<lparr>len := 2, netfn_lun := 0x20, cmd := 1\<rparr>, msg_idx := 4\<rparr>), 1)"
    by (simp add: ssif_bmc_cb_def assembling_state_def msg_set_byte_def ssif_msg_len_def
                  zero_msg_def handle_request_def wake_up_all_def aspeed_i2c_disable_slave_def
                  aspeed_i2c_disable_interrupt_def)
  from receive_request_single_slot [OF h1, of False False] h1 h2 h3 h4 h5 show ?thesis
    by blast
qed

section \<open>Request assembly\<close>

lemma msg_set_byte_in_bounds:
  "i < sizeof_ssif_msg \<Longrightarrow>
   \<exists>r. msg_set_byte m i v = Some r \<and> msg_byte r i = Some v \<and>
       (\<forall>j. j \<noteq> i \<longrightarrow> msg_byte r j = msg_byte m j)"
  by (auto simp: msg_set_byte_def msg_byte_def)

text \<open>
  Claim C4. A write event past the command byte stores its byte and advances the
  cursor; when the count of message bytes written, \<open>msg_idx - 1\<close>, has then reached
  \<open>ssif_msg_len\<close> of the request, the request is complete: the slave's interrupts
  \<open>RX_DONE\<close> (bit 2) and \<open>SLAVE_MATCH\<close> (bit 7) are disabled, \<open>request_available\<close>
  is set, the whole response message is zeroed and the wait queue is woken.
\<close>

theorem request_completion:
  assumes "0 < msg_idx s" and "msg_idx s < sizeof_ssif_msg"
    and "ssif_bmc_cb s I2C_SLAVE_WRITE_RECEIVED v = Some (s', b)"
    and "ssif_msg_len (request s') \<le> msg_idx s' - 1"
  shows "request_available s' \<and> response s' = zero_msg \<and>
         wake_ups s' = Suc (wake_ups s) \<and>
         intr_ctrl_reg s' =
           (intr_ctrl_reg s AND NOT ASPEED_I2CD_INTR_RX_DONE)
             AND NOT ASPEED_I2CD_INTR_SLAVE_MATCH \<and>
         \<not> bit (intr_ctrl_reg s') 2 \<and> \<not> bit (intr_ctrl_reg s') 7 \<and>
         msg_byte (request s') (msg_idx s - 1) = Some v \<and> msg_idx s' = msg_idx s + 1"
proof -
  from assms(2) have lt: "msg_idx s - 1 < sizeof_ssif_msg" by simp
  obtain r where r: "msg_set_byte (request s) (msg_idx s - 1) v = Some r"
    and rb: "msg_byte r (msg_idx s - 1) = Some v"
    using msg_set_byte_in_bounds [OF lt] by blast
  define s1 where "s1 = s\<lparr>request := r, msg_idx := msg_idx s + 1\<rparr>"
  have hr: "request (handle_request t) = request t \<and> msg_idx (handle_request t) = msg_idx t"
    for t
    by (simp add: handle_request_def wake_up_all_def aspeed_i2c_disable_slave_def
                  aspeed_i2c_disable_interrupt_def)
  from assms(1,2,3) r
  have s': "s' = (if ssif_msg_len (request s1) \<le> msg_idx s1 - 1
                  then handle_request s1 else s1)"
    by (auto simp: ssif_bmc_cb_def Let_def s1_def)
  with assms(4) hr have fin: "s' = handle_request s1"
    by (auto split: if_splits)
  have bits: "\<not> bit ((w AND NOT 4) AND NOT 128) 2 \<and> \<not> bit ((w AND NOT 4) AND NOT 128) 7"
    for w :: u32
    by (simp add: bit_simps)
  show ?thesis
    using bits [of "intr_ctrl_reg s"] rb
    by (simp add: fin s1_def handle_request_def wake_up_all_def aspeed_i2c_disable_slave_def
                  aspeed_i2c_disable_interrupt_def)
qed

theorem request_completion_witness:
  "0 < msg_idx assembling_state \<and> msg_idx assembling_state < sizeof_ssif_msg \<and>
   ssif_bmc_cb assembling_state I2C_SLAVE_WRITE_RECEIVED 1 =
     Some (handle_request
             (assembling_state
                \<lparr>request := zero_msg\<lparr>len := 2, netfn_lun := 0x20, cmd := 1\<rparr>, msg_idx := 4\<rparr>), 1) \<and>
   request_available
     (handle_request
        (assembling_state
           \<lparr>request := zero_msg\<lparr>len := 2, netfn_lun := 0x20, cmd := 1\<rparr>, msg_idx := 4\<rparr>)) \<and>
   response
     (handle_request
        (assembling_state
           \<lparr>request := zero_msg\<lparr>len := 2, netfn_lun := 0x20, cmd := 1\<rparr>, msg_idx := 4\<rparr>)) =
     zero_msg \<and>
   intr_ctrl_reg
     (handle_request
        (assembling_state
           \<lparr>request := zero_msg\<lparr>len := 2, netfn_lun := 0x20, cmd := 1\<rparr>, msg_idx := 4\<rparr>)) =
     0xFF7B"
proof -
  let ?s' = "handle_request
               (assembling_state
                  \<lparr>request := zero_msg\<lparr>len := 2, netfn_lun := 0x20, cmd := 1\<rparr>,
                   msg_idx := 4\<rparr>)"
  have h1: "0 < msg_idx assembling_state" and h2: "msg_idx assembling_state < sizeof_ssif_msg"
    by (simp_all add: assembling_state_def)
  have h3: "ssif_bmc_cb assembling_state I2C_SLAVE_WRITE_RECEIVED 1 = Some (?s', 1)"
    by (simp add: ssif_bmc_cb_def assembling_state_def msg_set_byte_def ssif_msg_len_def
                  zero_msg_def handle_request_def wake_up_all_def aspeed_i2c_disable_slave_def
                  aspeed_i2c_disable_interrupt_def)
  have h4: "ssif_msg_len (request ?s') \<le> msg_idx ?s' - 1"
    by (simp add: assembling_state_def ssif_msg_len_def zero_msg_def handle_request_def
                  wake_up_all_def aspeed_i2c_disable_slave_def aspeed_i2c_disable_interrupt_def)
  have reg: "intr_ctrl_reg assembling_state = 0xFFFF"
    by (simp add: assembling_state_def ssif_bmc_probe_def)
  from request_completion [OF h1 h2 h3 h4] h1 h2 h3 reg show ?thesis
    by simp
qed

text \<open>
  Claim C9. A write event past the command byte stores its byte at offset
  \<open>msg_idx - 1\<close> of the request only when that offset lies inside the 255 bytes of the
  struct. A byte that would land at or beyond the end of the struct is dropped: the
  callback returns the state it was given. (The guard of the code is on \<open>msg_idx\<close>
  itself, so the byte for the last offset, 254, is dropped too.) No write event ever
  touches memory outside the struct.
\<close>

theorem write_received_bounded:
  assumes "0 < msg_idx s"
  shows "ssif_bmc_cb s I2C_SLAVE_WRITE_RECEIVED v \<noteq> None \<and>
         (sizeof_ssif_msg \<le> msg_idx s - 1 \<longrightarrow>
            ssif_bmc_cb s I2C_SLAVE_WRITE_RECEIVED v = Some (s, v)) \<and>
         (sizeof_ssif_msg \<le> msg_idx s \<longrightarrow>
            ssif_bmc_cb s I2C_SLAVE_WRITE_RECEIVED v = Some (s, v)) \<and>
         (\<forall>s' b. ssif_bmc_cb s I2C_SLAVE_WRITE_RECEIVED v = Some (s', b) \<and>
                  request s' \<noteq> request s \<longrightarrow>
            msg_idx s - 1 < sizeof_ssif_msg \<and>
            msg_set_byte (request s) (msg_idx s - 1) v = Some (request s'))"
proof (cases "sizeof_ssif_msg \<le> msg_idx s")
  case True
  with assms show ?thesis by (simp add: ssif_bmc_cb_def)
next
  case False
  then have lt: "msg_idx s - 1 < sizeof_ssif_msg" by simp
  from msg_set_byte_in_bounds [OF lt] obtain r where
    r: "msg_set_byte (request s) (msg_idx s - 1) v = Some r" by blast
  from assms False r show ?thesis
    by (auto simp: ssif_bmc_cb_def Let_def handle_request_def wake_up_all_def
                   aspeed_i2c_disable_slave_def aspeed_i2c_disable_interrupt_def)
qed

theorem write_received_bounded_witness:
  "0 < msg_idx overflow_state \<and> sizeof_ssif_msg \<le> msg_idx overflow_state - 1 \<and>
   ssif_bmc_cb overflow_state I2C_SLAVE_WRITE_RECEIVED 7 = Some (overflow_state, 7) \<and>
   0 < msg_idx assembling_state \<and>
   ssif_bmc_cb assembling_state I2C_SLAVE_WRITE_RECEIVED 1 \<noteq> None \<and>
   request (fst (the (ssif_bmc_cb assembling_state I2C_SLAVE_WRITE_RECEIVED 1))) \<noteq>
     request assembling_state \<and>
   msg_set_byte (request assembling_state) (msg_idx assembling_state - 1) 1 =
     Some (request (fst (the (ssif_bmc_cb assembling_state I2C_SLAVE_WRITE_RECEIVED 1))))"
proof -
  have h1: "0 < msg_idx overflow_state" and h2: "sizeof_ssif_msg \<le> msg_idx overflow_state - 1"
    by (simp_all add: overflow_state_def)
  have h3: "0 < msg_idx assembling_state"
    by (simp add: assembling_state_def)
  have h4: "request (fst (the (ssif_bmc_cb assembling_state I2C_SLAVE_WRITE_RECEIVED 1))) \<noteq>
              request assembling_state"
    by (simp add: ssif_bmc_cb_def assembling_state_def msg_set_byte_def ssif_msg_len_def
                  zero_msg_def handle_request_def wake_up_all_def aspeed_i2c_disable_slave_def
                  aspeed_i2c_disable_interrupt_def)
  from write_received_bounded [OF h1, of 7] write_received_bounded [OF h3, of 1] h1 h2 h3 h4
  show ?thesis
    by (metis fst_conv option.collapse surj_pair)
qed

text \<open>
  A whole block write. The bytes of a message of length field 2 to 253 on the wire,
  written in one transaction, leave the request complete: the request holds these
  bytes, the wait queue has been woken exactly once, the response is zeroed and the
  slave's interrupts are disabled.
\<close>

lemma msg_set_byte_buf:
  assumes "i < sizeof_ssif_msg"
  shows "\<exists>r. msg_set_byte m i v = Some r \<and>
             (\<forall>j. msg_buf r j = (if j = i then v else msg_buf m j))"
proof -
  have "j - 3 = i - 3 \<longleftrightarrow> j = i" if "3 \<le> i" "3 \<le> j" for j
    using that by arith
  with assms show ?thesis
    by (auto simp: msg_set_byte_def msg_buf_def)
qed

lemma request_write_steps:
  assumes "1 \<le> i" and "msg_idx s = i + 1"
    and "i + length bs \<le> unat (len (request s))" and "unat (len (request s)) \<le> 254"
  shows "\<exists>r. run s (map (Pair I2C_SLAVE_WRITE_RECEIVED) bs) =
               Some (s\<lparr>request := r, msg_idx := i + 1 + length bs\<rparr>, []) \<and>
             (\<forall>j. msg_buf r j =
                    (if i \<le> j \<and> j < i + length bs then bs ! (j - i)
                     else msg_buf (request s) j))"
  using assms
proof (induction bs arbitrary: s i)
  case Nil
  then show ?case
    by (intro exI [of _ "request s"]) auto
next
  case (Cons b bs)
  from Cons.prems have lt: "i < sizeof_ssif_msg" by simp
  from msg_set_byte_buf [OF lt] obtain r1 where
    set: "msg_set_byte (request s) i b = Some r1"
    and r1: "\<And>j. msg_buf r1 j = (if j = i then b else msg_buf (request s) j)"
    by blast
  from r1 [of 0] Cons.prems(1) have len1: "len r1 = len (request s)"
    by (simp add: msg_buf_def)
  define s1 where "s1 = s\<lparr>request := r1, msg_idx := i + 2\<rparr>"
  from Cons.prems set len1 have step:
    "ssif_bmc_cb s I2C_SLAVE_WRITE_RECEIVED b = Some (s1, b)"
    by (simp add: ssif_bmc_cb_def ssif_msg_len_def s1_def Let_def)
  from Cons.prems len1 have
    "\<exists>r. run s1 (map (Pair I2C_SLAVE_WRITE_RECEIVED) bs) =
           Some (s1\<lparr>request := r, msg_idx := (i + 1) + 1 + length bs\<rparr>, []) \<and>
         (\<forall>j. msg_buf r j =
                (if i + 1 \<le> j \<and> j < (i + 1) + length bs then bs ! (j - (i + 1))
                 else msg_buf (request s1) j))"
    by (intro Cons.IH) (simp_all add: s1_def)
  then obtain r where
    rest: "run s1 (map (Pair I2C_SLAVE_WRITE_RECEIVED) bs) =
             Some (s1\<lparr>request := r, msg_idx := (i + 1) + 1 + length bs\<rparr>, [])"
    and r: "\<And>j. msg_buf r j =
                (if i + 1 \<le> j \<and> j < (i + 1) + length bs then bs ! (j - (i + 1))
                 else msg_buf (request s1) j)"
    by blast
  have "run s (map (Pair I2C_SLAVE_WRITE_RECEIVED) (b # bs)) =
          Some (s\<lparr>request := r, msg_idx := i + 1 + length (b # bs)\<rparr>, [])"
    using step rest by (simp add: s1_def)
  moreover have "msg_buf r j =
                   (if i \<le> j \<and> j < i + length (b # bs) then (b # bs) ! (j - i)
                    else msg_buf (request s) j)" for j
    using r [of j] r1 [of j] by (auto simp: s1_def nth_Cons' )
  ultimately show ?case by blast
qed


lemma block_write_completes_request:
  assumes "2 \<le> unat (len m)" and "unat (len m) \<le> 253"
  shows "\<exists>s'. run s (block_write c (wire_bytes m)) = Some (s', []) \<and>
              request_available s' \<and> wire_bytes (request s') = wire_bytes m \<and>
              response s' = zero_msg \<and> wake_ups s' = Suc (wake_ups s) \<and>
              smbus_cmd s' = c \<and> msg_idx s' = 0 \<and>
              response_in_progress s' = response_in_progress s \<and>
              is_multi_part s' = is_multi_part s \<and>
              num_bytes_processed s' = num_bytes_processed s \<and>
              intr_ctrl_reg s' =
                (intr_ctrl_reg s AND NOT ASPEED_I2CD_INTR_RX_DONE)
                  AND NOT ASPEED_I2CD_INTR_SLAVE_MATCH"
proof -
  define L where "L = unat (len m)"
  let ?wr = "Pair I2C_SLAVE_WRITE_RECEIVED"
  from assms have L: "2 \<le> L" "L \<le> 253" by (simp_all add: L_def)
  have wb: "wire_bytes m = map (msg_buf m) [0 ..< L + 1]"
    using wire_bytes_buf [OF assms(1)] by (simp add: ssif_msg_len_def L_def)
  have "[0 ..< L + 1] = 0 # [1 ..< L] @ [L]"
    using L upt_conv_Cons [of 0 "L + 1"] by simp
  then have split: "wire_bytes m = len m # map (msg_buf m) [1 ..< L] @ [msg_buf m L]"
    by (simp add: wb msg_buf_def del: upt_Suc)
  \<comment> \<open>the command byte and the length byte\<close>
  define s2 where "s2 = s\<lparr>msg_idx := 2, smbus_cmd := c, request := (request s)\<lparr>len := len m\<rparr>\<rparr>"
  have head: "run s [(I2C_SLAVE_WRITE_REQUESTED, 0), ?wr c, ?wr (len m)] = Some (s2, [])"
    using L by (simp add: ssif_bmc_cb_def msg_set_byte_def ssif_msg_len_def s2_def L_def)
  \<comment> \<open>the bytes at offsets 1 to L - 1\<close>
  have "\<exists>r. run s2 (map ?wr (map (msg_buf m) [1 ..< L])) =
               Some (s2\<lparr>request := r, msg_idx := 1 + 1 + length (map (msg_buf m) [1 ..< L])\<rparr>, []) \<and>
             (\<forall>j. msg_buf r j =
                    (if 1 \<le> j \<and> j < 1 + length (map (msg_buf m) [1 ..< L])
                     then map (msg_buf m) [1 ..< L] ! (j - 1)
                     else msg_buf (request s2) j))"
    using L by (intro request_write_steps) (simp_all add: s2_def L_def)
  then obtain r where
    mid0: "run s2 (map ?wr (map (msg_buf m) [1 ..< L])) =
             Some (s2\<lparr>request := r,
                      msg_idx := 1 + 1 + length (map (msg_buf m) [1 ..< L])\<rparr>, [])"
    and r0: "\<And>j. msg_buf r j =
               (if 1 \<le> j \<and> j < 1 + length (map (msg_buf m) [1 ..< L])
                then map (msg_buf m) [1 ..< L] ! (j - 1)
                else msg_buf (request s2) j)"
    by blast
  have mid: "run s2 (map ?wr (map (msg_buf m) [1 ..< L])) =
               Some (s2\<lparr>request := r, msg_idx := L + 1\<rparr>, [])"
    using mid0 L by simp
  have r: "msg_buf r j =
             (if 1 \<le> j \<and> j < L then msg_buf m j else msg_buf (request s2) j)" for j
    using r0 [of j] L by (auto simp: nth_map simp del: upt_Suc)
  define s3 where "s3 = s2\<lparr>request := r, msg_idx := L + 1\<rparr>"
  from r [of 0] have lenr: "len r = len m"
    by (simp add: msg_buf_def s2_def)
  \<comment> \<open>the last byte, at offset L\<close>
  have ltL: "L < sizeof_ssif_msg" using L by simp
  from msg_set_byte_buf [OF ltL] obtain r' where
    set: "msg_set_byte r L (msg_buf m L) = Some r'"
    and r': "\<And>j. msg_buf r' j = (if j = L then msg_buf m L else msg_buf r j)"
    by blast
  from r' [of 0] L lenr have lenr': "len r' = len m"
    by (simp add: msg_buf_def)
  define s4 where "s4 = handle_request (s3\<lparr>request := r', msg_idx := L + 2\<rparr>)"
  have last: "ssif_bmc_cb s3 I2C_SLAVE_WRITE_RECEIVED (msg_buf m L) = Some (s4, msg_buf m L)"
    using L set lenr'
    by (simp add: ssif_bmc_cb_def ssif_msg_len_def s3_def s4_def Let_def L_def)
  have stop: "run s4 [(I2C_SLAVE_STOP, 0)] = Some (s4\<lparr>msg_idx := 0\<rparr>, [])"
    by (simp add: ssif_bmc_cb_def)
  have bw: "block_write c (wire_bytes m) =
              [(I2C_SLAVE_WRITE_REQUESTED, 0), ?wr c, ?wr (len m)] @
              map ?wr (map (msg_buf m) [1 ..< L]) @
              [?wr (msg_buf m L)] @ [(I2C_SLAVE_STOP, 0)]"
    by (simp add: block_write_def split)
  have run: "run s (block_write c (wire_bytes m)) = Some (s4\<lparr>msg_idx := 0\<rparr>, [])"
    unfolding bw run_append using head mid last stop by (simp add: s3_def)
  \<comment> \<open>the request that was assembled\<close>
  have same: "msg_buf r' j = msg_buf m j" if "j \<le> L" for j
    using that r' [of j] r [of j] L by (auto simp: msg_buf_def s2_def)
  have req: "request (s4\<lparr>msg_idx := 0\<rparr>) = r'"
    by (simp add: s4_def handle_request_def wake_up_all_def aspeed_i2c_disable_slave_def
                  aspeed_i2c_disable_interrupt_def)
  have "wire_bytes r' = map (msg_buf r') [0 ..< L + 1]"
    using wire_bytes_buf [of r'] assms(1) lenr' by (simp add: ssif_msg_len_def L_def)
  also have "\<dots> = map (msg_buf m) [0 ..< L + 1]"
    by (rule map_cong) (auto simp: same simp del: upt_Suc)
  finally have "wire_bytes r' = wire_bytes m"
    by (simp add: wb)
  with run req show ?thesis
    by (intro exI [of _ "s4\<lparr>msg_idx := 0\<rparr>"])
       (simp add: s4_def s3_def s2_def handle_request_def wake_up_all_def
                  aspeed_i2c_disable_slave_def aspeed_i2c_disable_interrupt_def)
qed

section \<open>Reading a response\<close>

text \<open>
  Claim C8. With no multi-part response active, the byte supplied on a read-requested
  event is the length field of the pending response, except that a length field of 0
  is answered with 1.
\<close>

theorem read_requested_zero_length_workaround:
  assumes "\<not> is_multi_part s"
  shows "ssif_bmc_cb s I2C_SLAVE_READ_REQUESTED v =
           Some (s\<lparr>msg_idx := 0\<rparr>, if len (response s) = 0 then 1 else len (response s))"
  using assms by (simp add: ssif_bmc_cb_def event_request_read_def msg_byte_def)

theorem read_requested_zero_length_workaround_witness:
  "\<not> is_multi_part (ssif_bmc_probe 0xFFFF) \<and> len (response (ssif_bmc_probe 0xFFFF)) = 0 \<and>
   ssif_bmc_cb (ssif_bmc_probe 0xFFFF) I2C_SLAVE_READ_REQUESTED 0 =
     Some ((ssif_bmc_probe 0xFFFF)\<lparr>msg_idx := 0\<rparr>, 1) \<and>
   \<not> is_multi_part busy_state \<and>
   ssif_bmc_cb busy_state I2C_SLAVE_READ_REQUESTED 0 = Some (busy_state\<lparr>msg_idx := 0\<rparr>, 5)"
proof -
  have h1: "\<not> is_multi_part (ssif_bmc_probe 0xFFFF)"
    and z: "len (response (ssif_bmc_probe 0xFFFF)) = 0"
    by (simp_all add: ssif_bmc_probe_def zero_msg_def)
  have h2: "\<not> is_multi_part busy_state" and l: "len (response busy_state) = 5"
    by (simp_all add: busy_state_def ssif_bmc_probe_def demo_msg_def)
  from read_requested_zero_length_workaround [OF h1, of 0]
       read_requested_zero_length_workaround [OF h2, of 0] h1 h2 z l
  show ?thesis by simp
qed

text \<open>
  Claim C10. A read-processed event that finds no response held (length field 0, no
  multi-part response) supplies the byte 0, leaves the cursor where it is and runs
  \<open>complete_response\<close>: \<open>response_in_progress\<close> is cleared and the wait queue is
  woken, on every such event, so \<open>n\<close> of them in a row wake it \<open>n\<close> times.
\<close>

theorem read_processed_without_response:
  assumes "\<not> is_multi_part s" and "len (response s) = 0"
  shows "ssif_bmc_cb s I2C_SLAVE_READ_PROCESSED v = Some (complete_response s, 0) \<and>
         msg_idx (complete_response s) = msg_idx s \<and>
         \<not> response_in_progress (complete_response s) \<and>
         wake_ups (complete_response s) = Suc (wake_ups s) \<and>
         \<not> is_multi_part (complete_response s) \<and> len (response (complete_response s)) = 0 \<and>
         run s (replicate n (I2C_SLAVE_READ_PROCESSED, v)) =
           Some ((complete_response ^^ n) s, replicate n 0) \<and>
         wake_ups ((complete_response ^^ n) s) = wake_ups s + n"
proof -
  have step: "ssif_bmc_cb t I2C_SLAVE_READ_PROCESSED v = Some (complete_response t, 0)"
    if "\<not> is_multi_part t" "len (response t) = 0" for t
    using that by (simp add: ssif_bmc_cb_def event_process_read_def ssif_msg_len_def)
  have keep: "\<not> is_multi_part (complete_response t) \<and> len (response (complete_response t)) = 0"
    if "\<not> is_multi_part t" for t
    using that by (simp add: complete_response_def wake_up_all_def)
  have runs: "run t (replicate k (I2C_SLAVE_READ_PROCESSED, v)) =
                Some ((complete_response ^^ k) t, replicate k 0)"
    if "\<not> is_multi_part t" "len (response t) = 0" for t k
    using that
  proof (induction k arbitrary: t)
    case 0
    then show ?case by simp
  next
    case (Suc k)
    from keep [OF Suc.prems(1)] Suc.IH [of "complete_response t"]
    have "run (complete_response t) (replicate k (I2C_SLAVE_READ_PROCESSED, v)) =
            Some ((complete_response ^^ k) (complete_response t), replicate k 0)"
      by simp
    with step [OF Suc.prems] show ?case
      by (simp add: funpow_swap1)
  qed
  have wakes: "wake_ups ((complete_response ^^ k) s) = wake_ups s + k" for k
    by (induction k) (simp_all add: complete_response_def wake_up_all_def)
  show ?thesis
    using step [OF assms] keep [OF assms(1)] runs [OF assms] wakes
    by (simp add: complete_response_def wake_up_all_def)
qed

theorem read_processed_without_response_witness:
  "\<not> is_multi_part (ssif_bmc_probe 0xFFFF) \<and> len (response (ssif_bmc_probe 0xFFFF)) = 0 \<and>
   ssif_bmc_cb (ssif_bmc_probe 0xFFFF) I2C_SLAVE_READ_PROCESSED 0 =
     Some (complete_response (ssif_bmc_probe 0xFFFF), 0) \<and>
   wake_ups (complete_response (ssif_bmc_probe 0xFFFF)) = 1 \<and>
   run (ssif_bmc_probe 0xFFFF) (replicate 2 (I2C_SLAVE_READ_PROCESSED, 0)) =
     Some ((complete_response ^^ 2) (ssif_bmc_probe 0xFFFF), [0, 0]) \<and>
   wake_ups ((complete_response ^^ 2) (ssif_bmc_probe 0xFFFF)) = 2"
proof -
  have h1: "\<not> is_multi_part (ssif_bmc_probe 0xFFFF)"
    and h2: "len (response (ssif_bmc_probe 0xFFFF)) = 0"
    and w: "wake_ups (ssif_bmc_probe 0xFFFF) = 0"
    by (simp_all add: ssif_bmc_probe_def zero_msg_def)
  have r: "replicate 2 (0 :: u8) = [0, 0]"
    by (simp add: numeral_2_eq_2)
  from read_processed_without_response [OF h1 h2, of 0 2] h1 h2 w r show ?thesis
    by simp
qed

text \<open>
  Claim C5, as the code has it. \<open>complete_response\<close> is the only step of the
  read-processed handling that wakes the wait queue. When it runs, the length field of
  the response is zeroed, \<open>response_in_progress\<close> is cleared, \<open>num_bytes_processed\<close>
  and \<open>remain_data_len\<close> are zeroed, the chunk buffer is zeroed and the wait queue is
  woken once. \<open>block_num\<close>, \<open>is_multi_part\<close> and \<open>middle_start_response\<close> keep their
  values. It runs when the cursor has passed the last byte: of the message for a
  single-part response, of the End chunk (block number \<open>0xFF\<close>) for a multi-part one.
\<close>

theorem response_completion:
  assumes "ssif_bmc_cb s I2C_SLAVE_READ_PROCESSED v = Some (s', b)"
    and "wake_ups s' \<noteq> wake_ups s"
  shows "len (response s') = 0 \<and> \<not> response_in_progress s' \<and>
         num_bytes_processed s' = 0 \<and> remain_data_len s' = 0 \<and>
         response_buffer s' = (\<lambda>_. 0) \<and> wake_ups s' = Suc (wake_ups s) \<and>
         block_num s' = block_num s \<and> is_multi_part s' = is_multi_part s \<and>
         middle_start_response s' = middle_start_response s \<and>
         (if is_multi_part s
          then block_num s = 0xFF \<and> unat (remain_data_len s) < msg_idx s'
          else ssif_msg_len (response s) \<le> msg_idx s' + 1)"
  using assms
  by (auto simp: ssif_bmc_cb_def event_process_read_def complete_response_def wake_up_all_def
                 pr_err_def Let_def
           split: if_splits option.splits)

theorem response_completion_witness:
  "ssif_bmc_cb last_byte_state I2C_SLAVE_READ_PROCESSED 0 =
     Some (complete_response (last_byte_state\<lparr>msg_idx := 10\<rparr>), 37) \<and>
   wake_ups (complete_response (last_byte_state\<lparr>msg_idx := 10\<rparr>)) \<noteq> wake_ups last_byte_state \<and>
   len (response (complete_response (last_byte_state\<lparr>msg_idx := 10\<rparr>))) = 0 \<and>
   \<not> response_in_progress (complete_response (last_byte_state\<lparr>msg_idx := 10\<rparr>)) \<and>
   remain_data_len (complete_response (last_byte_state\<lparr>msg_idx := 10\<rparr>)) = 0"
proof -
  have h1: "ssif_bmc_cb last_byte_state I2C_SLAVE_READ_PROCESSED 0 =
              Some (complete_response (last_byte_state\<lparr>msg_idx := 10\<rparr>), 37)"
    by (simp add: ssif_bmc_cb_def event_process_read_def last_byte_state_def
                  ssif_bmc_probe_def complete_response_def wake_up_all_def)
  have h2: "wake_ups (complete_response (last_byte_state\<lparr>msg_idx := 10\<rparr>)) \<noteq>
              wake_ups last_byte_state"
    by (simp add: complete_response_def wake_up_all_def)
  from response_completion [OF h1 h2] h1 h2 show ?thesis
    by simp
qed

text \<open>
  Claim C5, as it is stated, also has \<open>block_num\<close> cleared by the completion. It is
  not: the last read-processed event of an End chunk runs the completion and leaves
  the block number at the End marker \<open>0xFF\<close>, and so it stands after the whole
  40-byte response has been read from the probed state.
\<close>

theorem completion_keeps_block_num:
  "ssif_bmc_cb last_byte_state I2C_SLAVE_READ_PROCESSED 0 =
     Some (complete_response (last_byte_state\<lparr>msg_idx := 10\<rparr>), 37) \<and>
   wake_ups (complete_response (last_byte_state\<lparr>msg_idx := 10\<rparr>)) =
     Suc (wake_ups last_byte_state) \<and>
   \<not> response_in_progress (complete_response (last_byte_state\<lparr>msg_idx := 10\<rparr>)) \<and>
   block_num (complete_response (last_byte_state\<lparr>msg_idx := 10\<rparr>)) = 0xFF \<and>
   block_num (complete_response (last_byte_state\<lparr>msg_idx := 10\<rparr>)) \<noteq> 0 \<and>
   map_option (block_num \<circ> fst)
     (run (snd (send_ssif_bmc_response (ssif_bmc_probe 0xFFFF) True False (demo_msg 39)))
          (block_read SSIF_IPMI_RESPONSE 32 @
           block_read SSIF_IPMI_MULTI_PART_RESPONSE_MIDDLE 10)) = Some 0xFF \<and>
   map_option (wake_ups \<circ> fst)
     (run (snd (send_ssif_bmc_response (ssif_bmc_probe 0xFFFF) True False (demo_msg 39)))
          (block_read SSIF_IPMI_RESPONSE 32 @
           block_read SSIF_IPMI_MULTI_PART_RESPONSE_MIDDLE 10)) = Some 1"
proof -
  have step: "ssif_bmc_cb last_byte_state I2C_SLAVE_READ_PROCESSED 0 =
                Some (complete_response (last_byte_state\<lparr>msg_idx := 10\<rparr>), 37)"
    by (simp add: ssif_bmc_cb_def event_process_read_def last_byte_state_def
                  ssif_bmc_probe_def complete_response_def wake_up_all_def)
  have after: "wake_ups (complete_response (last_byte_state\<lparr>msg_idx := 10\<rparr>)) =
                 Suc (wake_ups last_byte_state)"
    "\<not> response_in_progress (complete_response (last_byte_state\<lparr>msg_idx := 10\<rparr>))"
    "block_num (complete_response (last_byte_state\<lparr>msg_idx := 10\<rparr>)) = 0xFF"
    by (simp_all add: last_byte_state_def complete_response_def wake_up_all_def)
  have whole: "map_option (block_num \<circ> fst)
     (run (snd (send_ssif_bmc_response (ssif_bmc_probe 0xFFFF) True False (demo_msg 39)))
          (block_read SSIF_IPMI_RESPONSE 32 @
           block_read SSIF_IPMI_MULTI_PART_RESPONSE_MIDDLE 10)) = Some 0xFF"
    "map_option (wake_ups \<circ> fst)
     (run (snd (send_ssif_bmc_response (ssif_bmc_probe 0xFFFF) True False (demo_msg 39)))
          (block_read SSIF_IPMI_RESPONSE 32 @
           block_read SSIF_IPMI_MULTI_PART_RESPONSE_MIDDLE 10)) = Some 1"
    by code_simp+
  from step after whole show ?thesis by simp
qed

subsection \<open>Single-part responses\<close>

text \<open>
  Read-processed events before the last byte: each one advances the cursor and supplies
  the byte of the response under it.
\<close>

lemma single_part_read_steps:
  assumes "\<not> is_multi_part s" and "msg_idx s + k < unat (len (response s))"
  shows "run s (replicate k (I2C_SLAVE_READ_PROCESSED, v)) =
           Some (s\<lparr>msg_idx := msg_idx s + k\<rparr>,
                 map (msg_buf (response s)) [msg_idx s + 1 ..< msg_idx s + k + 1])"
  using assms
proof (induction k arbitrary: s)
  case 0
  then show ?case by simp
next
  case (Suc k)
  let ?s1 = "s\<lparr>msg_idx := msg_idx s + 1\<rparr>"
  have bound: "unat (len (response s)) \<le> 255"
    using unat_u8_bound [of "len (response s)"] by simp
  from Suc.prems have nz: "len (response s) \<noteq> 0"
    by (auto simp: unat_eq_0)
  from Suc.prems bound
  have b: "msg_byte (response s) (msg_idx s + 1) = Some (msg_buf (response s) (msg_idx s + 1))"
    by (intro msg_byte_buf) simp
  from Suc.prems nz b have step:
    "ssif_bmc_cb s I2C_SLAVE_READ_PROCESSED v =
       Some (?s1, msg_buf (response s) (msg_idx s + 1))"
    by (simp add: ssif_bmc_cb_def event_process_read_def ssif_msg_len_def)
  from Suc.prems have "run ?s1 (replicate k (I2C_SLAVE_READ_PROCESSED, v)) =
           Some (?s1\<lparr>msg_idx := msg_idx ?s1 + k\<rparr>,
                 map (msg_buf (response ?s1)) [msg_idx ?s1 + 1 ..< msg_idx ?s1 + k + 1])"
    by (intro Suc.IH) simp_all
  moreover have "[msg_idx s + 1 ..< msg_idx s + Suc k + 1] =
                   (msg_idx s + 1) # [msg_idx ?s1 + 1 ..< msg_idx ?s1 + k + 1]"
    using upt_conv_Cons [of "msg_idx s + 1" "msg_idx s + Suc k + 1"] by simp
  ultimately show ?case
    using step by (simp del: upt_Suc)
qed

text \<open>The read-processed event for the last byte also completes the response.\<close>

lemma single_part_read_last:
  assumes "\<not> is_multi_part s" and "msg_idx s + 1 = unat (len (response s))"
    and "unat (len (response s)) < sizeof_ssif_msg"
  shows "ssif_bmc_cb s I2C_SLAVE_READ_PROCESSED v =
           Some (complete_response (s\<lparr>msg_idx := msg_idx s + 1\<rparr>),
                 msg_buf (response s) (msg_idx s + 1))"
proof -
  from assms have nz: "len (response s) \<noteq> 0"
    by (auto simp: unat_eq_0)
  from assms
  have b: "msg_byte (response s) (msg_idx s + 1) = Some (msg_buf (response s) (msg_idx s + 1))"
    by (intro msg_byte_buf) simp
  from assms nz b show ?thesis
    by (simp add: ssif_bmc_cb_def event_process_read_def ssif_msg_len_def)
qed

text \<open>
  Claim C2. With a message of length field 2 to 33 held as single-part response, a
  read-requested event followed by \<open>ssif_msg_len - 1\<close> read-processed events emits
  exactly the bytes of the message on the wire, \<open>[len][netfn_lun][cmd][payload...]\<close>,
  and the last of these events clears \<open>response_in_progress\<close>. Any shorter run of
  read-processed events emits a proper prefix and changes nothing but the cursor.
\<close>

theorem single_part_round_trip:
  assumes "\<not> is_multi_part s" and "2 \<le> unat (len (response s))"
    and "unat (len (response s)) \<le> 33"
  shows "run s ((I2C_SLAVE_READ_REQUESTED, v) #
                replicate (ssif_msg_len (response s) - 1) (I2C_SLAVE_READ_PROCESSED, w)) =
           Some (complete_response (s\<lparr>msg_idx := unat (len (response s))\<rparr>),
                 wire_bytes (response s)) \<and>
         length (wire_bytes (response s)) = ssif_msg_len (response s) \<and>
         \<not> response_in_progress
             (complete_response (s\<lparr>msg_idx := unat (len (response s))\<rparr>)) \<and>
         (\<forall>k < ssif_msg_len (response s) - 1.
            run s ((I2C_SLAVE_READ_REQUESTED, v) # replicate k (I2C_SLAVE_READ_PROCESSED, w)) =
              Some (s\<lparr>msg_idx := k\<rparr>, take (k + 1) (wire_bytes (response s))))"
proof -
  define L where "L = unat (len (response s))"
  let ?s0 = "s\<lparr>msg_idx := 0\<rparr>"
  let ?rp = "(I2C_SLAVE_READ_PROCESSED, w)"
  from assms have L: "2 \<le> L" "L \<le> 33" by (simp_all add: L_def)
  have nz: "len (response s) \<noteq> 0"
    using L by (auto simp: L_def)
  have wb: "wire_bytes (response s) = map (msg_buf (response s)) [0 ..< L + 1]"
    using wire_bytes_buf [OF assms(2)] by (simp add: ssif_msg_len_def L_def)
  have first: "ssif_bmc_cb s I2C_SLAVE_READ_REQUESTED v = Some (?s0, msg_buf (response s) 0)"
    using assms(1) nz
    by (simp add: ssif_bmc_cb_def event_request_read_def msg_byte_def msg_buf_def)
  have steps: "run ?s0 (replicate k ?rp) =
                 Some (s\<lparr>msg_idx := k\<rparr>, map (msg_buf (response s)) [1 ..< k + 1])"
    if "k < L" for k
    using single_part_read_steps [of ?s0 k w] assms(1) that by (simp add: L_def)
  have prefix: "run s ((I2C_SLAVE_READ_REQUESTED, v) # replicate k ?rp) =
                  Some (s\<lparr>msg_idx := k\<rparr>, take (k + 1) (wire_bytes (response s)))"
    if "k < L" for k
  proof -
    have "take (k + 1) (wire_bytes (response s)) = map (msg_buf (response s)) [0 ..< k + 1]"
      using that by (simp add: wb take_map take_upt del: upt_Suc)
    also have "\<dots> = msg_buf (response s) 0 # map (msg_buf (response s)) [1 ..< k + 1]"
      by (simp add: upt_conv_Cons del: upt_Suc)
    finally show ?thesis
      using first steps [OF that] by simp
  qed
  have last: "ssif_bmc_cb (s\<lparr>msg_idx := L - 1\<rparr>) I2C_SLAVE_READ_PROCESSED w =
                Some (complete_response (s\<lparr>msg_idx := L\<rparr>), msg_buf (response s) L)"
    using single_part_read_last [of "s\<lparr>msg_idx := L - 1\<rparr>" w] assms(1) L
    by (simp add: L_def)
  have rep: "replicate L ?rp = replicate (L - 1) ?rp @ [?rp]"
    using L by (cases L) (simp_all add: replicate_append_same)
  have "run s ((I2C_SLAVE_READ_REQUESTED, v) # replicate L ?rp) =
          Some (complete_response (s\<lparr>msg_idx := L\<rparr>),
                take L (wire_bytes (response s)) @ [msg_buf (response s) L])"
  proof -
    have "run s (((I2C_SLAVE_READ_REQUESTED, v) # replicate (L - 1) ?rp) @ [?rp]) =
            Some (complete_response (s\<lparr>msg_idx := L\<rparr>),
                  take L (wire_bytes (response s)) @ [msg_buf (response s) L])"
      unfolding run_append using prefix [of "L - 1"] last L by simp
    then show ?thesis by (simp add: rep)
  qed
  moreover have "take L (wire_bytes (response s)) @ [msg_buf (response s) L] =
                   wire_bytes (response s)"
    by (simp add: wb take_map take_upt)
  moreover have "length (wire_bytes (response s)) = L + 1"
    by (simp add: wb)
  ultimately show ?thesis
    using prefix
    by (simp add: ssif_msg_len_def L_def [symmetric] complete_response_def wake_up_all_def)
qed

theorem single_part_round_trip_witness:
  "\<not> is_multi_part busy_state \<and> 2 \<le> unat (len (response busy_state)) \<and>
   unat (len (response busy_state)) \<le> 33 \<and> response_in_progress busy_state \<and>
   run busy_state ((I2C_SLAVE_READ_REQUESTED, 0) # replicate 5 (I2C_SLAVE_READ_PROCESSED, 0)) =
     Some (complete_response (busy_state\<lparr>msg_idx := 5\<rparr>), [5, 0xA0, 0xB0, 1, 2, 3]) \<and>
   \<not> response_in_progress (complete_response (busy_state\<lparr>msg_idx := 5\<rparr>)) \<and>
   run busy_state ((I2C_SLAVE_READ_REQUESTED, 0) # replicate 2 (I2C_SLAVE_READ_PROCESSED, 0)) =
     Some (busy_state\<lparr>msg_idx := 2\<rparr>, [5, 0xA0, 0xB0])"
proof -
  have h1: "\<not> is_multi_part busy_state" and p: "response_in_progress busy_state"
    and r: "response busy_state = demo_msg 5"
    by (simp_all add: busy_state_def ssif_bmc_probe_def)
  have l: "unat (len (demo_msg 5)) = 5"
    by (simp add: demo_msg_def)
  have h2: "2 \<le> unat (len (response busy_state))"
    and h3: "unat (len (response busy_state)) \<le> 33"
    by (simp_all add: r l)
  have n: "ssif_msg_len (demo_msg 5) - 1 = 5"
    by (simp add: ssif_msg_len_def l)
  have wb: "wire_bytes (demo_msg 5) = [5, 0xA0, 0xB0, 1, 2, 3]"
    by code_simp
  have tk: "take (2 + 1) [5, 0xA0, 0xB0, 1, 2, 3 :: u8] = [5, 0xA0, 0xB0]"
    by simp
  note t = single_part_round_trip [OF h1 h2 h3, of 0 0, unfolded r n l wb]
  from t have "run busy_state
                 ((I2C_SLAVE_READ_REQUESTED, 0) # replicate 2 (I2C_SLAVE_READ_PROCESSED, 0)) =
               Some (busy_state\<lparr>msg_idx := 2\<rparr>, take (2 + 1) [5, 0xA0, 0xB0, 1, 2, 3])"
    by (elim conjE allE [of _ 2]) simp
  with t h1 h2 h3 p show ?thesis
    unfolding tk by blast
qed

subsection \<open>Multi-part responses\<close>

text \<open>
  Read-processed events inside a chunk supply the bytes of the chunk buffer in order;
  the one that takes the cursor past \<open>remain_data_len\<close> in the End chunk completes the
  response.
\<close>

lemma multi_part_read_steps:
  assumes "is_multi_part s"
    and "smbus_cmd s = SSIF_IPMI_RESPONSE \<or> smbus_cmd s = SSIF_IPMI_MULTI_PART_RESPONSE_MIDDLE"
    and "msg_idx s + k \<le> MAX_PAYLOAD_PER_TRANSACTION"
    and "block_num s \<noteq> 0xFF \<or> msg_idx s + k \<le> unat (remain_data_len s)"
  shows "run s (replicate k (I2C_SLAVE_READ_PROCESSED, v)) =
           Some (s\<lparr>msg_idx := msg_idx s + k\<rparr>,
                 map (response_buffer s) [msg_idx s ..< msg_idx s + k])"
  using assms
proof (induction k arbitrary: s)
  case 0
  then show ?case by simp
next
  case (Suc k)
  let ?s1 = "s\<lparr>msg_idx := msg_idx s + 1\<rparr>"
  from Suc.prems have step:
    "ssif_bmc_cb s I2C_SLAVE_READ_PROCESSED v = Some (?s1, response_buffer s (msg_idx s))"
    by (auto simp: ssif_bmc_cb_def event_process_read_def)
  from Suc.prems have "run ?s1 (replicate k (I2C_SLAVE_READ_PROCESSED, v)) =
           Some (?s1\<lparr>msg_idx := msg_idx ?s1 + k\<rparr>,
                 map (response_buffer ?s1) [msg_idx ?s1 ..< msg_idx ?s1 + k])"
    by (intro Suc.IH) auto
  moreover have "[msg_idx s ..< msg_idx s + Suc k] = msg_idx s # [msg_idx ?s1 ..< msg_idx ?s1 + k]"
    using upt_conv_Cons [of "msg_idx s" "msg_idx s + Suc k"] by simp
  ultimately show ?case
    using step by (simp del: upt_Suc)
qed

lemma multi_part_read_last:
  assumes "is_multi_part s"
    and "smbus_cmd s = SSIF_IPMI_RESPONSE \<or> smbus_cmd s = SSIF_IPMI_MULTI_PART_RESPONSE_MIDDLE"
    and "msg_idx s < MAX_PAYLOAD_PER_TRANSACTION"
    and "block_num s = 0xFF" and "msg_idx s = unat (remain_data_len s)"
  shows "ssif_bmc_cb s I2C_SLAVE_READ_PROCESSED v =
           Some (complete_response (s\<lparr>msg_idx := msg_idx s + 1\<rparr>),
                 response_buffer s (msg_idx s))"
  using assms by (auto simp: ssif_bmc_cb_def event_process_read_def)

text \<open>
  The Start chunk and the End chunk as whole block reads, and a response that needs
  only these two (length field 33 to 61): the data of the two chunks is the message.
\<close>

lemma map_upt_eq_nth:
  "length xs = n \<Longrightarrow> (\<And>i. i < n \<Longrightarrow> f i = xs ! i) \<Longrightarrow> map f [0 ..< n] = xs"
  by (auto intro: nth_equalityI)

lemma start_buffer:
  "map (memcpy (b(0 := 0, 1 := 1, 2 := n, 3 := c, 4 := p 0)) 5 p 1 27) [0 ..< 32] =
     [0, 1, n, c] @ map p [0 ..< 28]"
proof (rule map_upt_eq_nth)
  show "length ([0, 1, n, c] @ map p [0 ..< 28]) = 32" by simp
next
  fix i :: nat
  assume "i < 32"
  moreover have "Suc (j - 5) = j - Suc (Suc (Suc (Suc 0)))" if "5 \<le> j" for j :: nat
    using that by arith
  ultimately show "memcpy (b(0 := 0, 1 := 1, 2 := n, 3 := c, 4 := p 0)) 5 p 1 27 i =
               ([0, 1, n, c] @ map p [0 ..< 28]) ! i"
    by (auto simp: memcpy_def nth_append nth_Cons' simp del: upt_Suc)
qed

lemma end_buffer:
  "map (memcpy (b(0 := k)) 1 p off n) [0 ..< n + 1] = k # map p [off ..< off + n]"
proof (rule map_upt_eq_nth)
  show "length (k # map p [off ..< off + n]) = n + 1" by simp
next
  fix i :: nat
  assume "i < n + 1"
  then show "memcpy (b(0 := k)) 1 p off n i = (k # map p [off ..< off + n]) ! i"
    by (auto simp: memcpy_def nth_Cons' simp del: upt_Suc)
qed

lemma start_chunk:
  assumes "is_multi_part s"
  shows "\<exists>s'. run s (block_read SSIF_IPMI_RESPONSE 32) =
                Some (s', 32 # [0, 1, netfn_lun (response s), cmd (response s)] @
                          map (payload (response s)) [0 ..< 28]) \<and>
              is_multi_part s' \<and> msg_idx s' = 0 \<and>
              remain_data_len s' = len (response s) - 30 \<and>
              num_bytes_processed s' = num_bytes_processed s + 27 \<and>
              response s' = response s \<and>
              response_in_progress s' = response_in_progress s \<and>
              wake_ups s' = wake_ups s"
proof -
  let ?rp = "(I2C_SLAVE_READ_PROCESSED, 0 :: u8)"
  define B where "B = memcpy ((response_buffer s)
                             (0 := 0, 1 := 1,
                              2 := netfn_lun (response s),
                              3 := cmd (response s),
                              4 := payload (response s) 0))
                          5 (payload (response s)) 1 27"
  define s1 where "s1 = s\<lparr>msg_idx := 1, smbus_cmd := 3\<rparr>"
  have w: "run s [(I2C_SLAVE_WRITE_REQUESTED, 0), (I2C_SLAVE_WRITE_RECEIVED, 3)] = Some (s1, [])"
    by (simp add: ssif_bmc_cb_def s1_def)
  from assms have "\<exists>S. ssif_bmc_cb s1 I2C_SLAVE_READ_REQUESTED 0 = Some (S, 32) \<and>
      is_multi_part S \<and> smbus_cmd S = 3 \<and> msg_idx S = 0 \<and> block_num S = 0 \<and>
      remain_data_len S = len (response s) - 30 \<and>
      num_bytes_processed S = num_bytes_processed s + 27 \<and>
      response S = response s \<and> response_in_progress S = response_in_progress s \<and>
      wake_ups S = wake_ups s \<and> response_buffer S = B"
    by (simp add: ssif_bmc_cb_def event_request_read_def set_response_buffer_def s1_def B_def
                  Let_def)
  then obtain S where rr: "ssif_bmc_cb s1 I2C_SLAVE_READ_REQUESTED 0 = Some (S, 32)"
    and S: "is_multi_part S" "smbus_cmd S = 3" "msg_idx S = 0" "block_num S = 0"
      "remain_data_len S = len (response s) - 30"
      "num_bytes_processed S = num_bytes_processed s + 27"
      "response S = response s" "response_in_progress S = response_in_progress s"
      "wake_ups S = wake_ups s" "response_buffer S = B"
    by blast
  have reads: "run S (replicate 32 ?rp) = Some (S\<lparr>msg_idx := 32\<rparr>, map B [0 ..< 32])"
    using multi_part_read_steps [of S 32 0] S by simp
  have stop: "run (S\<lparr>msg_idx := 32\<rparr>) [(I2C_SLAVE_STOP, 0)] = Some (S\<lparr>msg_idx := 0\<rparr>, [])"
    by (simp add: ssif_bmc_cb_def)
  have tail: "run S (replicate 32 ?rp @ [(I2C_SLAVE_STOP, 0)]) =
                Some (S\<lparr>msg_idx := 0\<rparr>, map B [0 ..< 32])"
    unfolding run_append using reads stop by simp
  have br: "block_read 3 32 =
              [(I2C_SLAVE_WRITE_REQUESTED, 0), (I2C_SLAVE_WRITE_RECEIVED, 3)] @
              (I2C_SLAVE_READ_REQUESTED, 0) # (replicate 32 ?rp @ [(I2C_SLAVE_STOP, 0)])"
    by (simp add: block_read_def)
  have "run s (block_read 3 32) = Some (S\<lparr>msg_idx := 0\<rparr>, 32 # map B [0 ..< 32])"
    unfolding br run_append using w rr tail by simp
  moreover have "map B [0 ..< 32] =
                   [0, 1, netfn_lun (response s), cmd (response s)] @
                   map (payload (response s)) [0 ..< 28]"
    unfolding B_def by (rule start_buffer)
  ultimately show ?thesis
    using S by (intro exI [of _ "S\<lparr>msg_idx := 0\<rparr>"]) simp
qed


lemma end_chunk:
  assumes "is_multi_part s"
    and "unat (remain_data_len s) \<le> MAX_IPMI_DATA_PER_MIDDLE_TRANSACTION"
    and "1 + unat (num_bytes_processed s) + unat (remain_data_len s) \<le> MSG_PAYLOAD_LEN_MAX"
  shows "\<exists>s'. run s (block_read SSIF_IPMI_MULTI_PART_RESPONSE_MIDDLE
                       (unat (remain_data_len s) + 1)) =
                Some (s', (remain_data_len s + 1) # 0xFF #
                          map (payload (response s))
                            [1 + unat (num_bytes_processed s) ..<
                             1 + unat (num_bytes_processed s) + unat (remain_data_len s)]) \<and>
              \<not> response_in_progress s' \<and> len (response s') = 0 \<and>
              num_bytes_processed s' = 0 \<and> remain_data_len s' = 0 \<and>
              block_num s' = 0xFF \<and> msg_idx s' = 0 \<and> wake_ups s' = Suc (wake_ups s)"
proof -
  let ?rp = "(I2C_SLAVE_READ_PROCESSED, 0 :: u8)"
  define n where "n = unat (remain_data_len s)"
  define off where "off = 1 + unat (num_bytes_processed s)"
  define B where "B = memcpy ((response_buffer s)(0 := 0xFF)) 1 (payload (response s)) off n"
  define s1 where "s1 = s\<lparr>msg_idx := 1, smbus_cmd := 9\<rparr>"
  have n: "n \<le> 31" and fits: "off + n \<le> 252"
    using assms by (simp_all add: n_def off_def)
  have rdl: "(if unat (remain_data_len s) < 31 then remain_data_len s else 31) = remain_data_len s"
  proof (cases "unat (remain_data_len s) < 31")
    case True
    then show ?thesis by simp
  next
    case False
    with assms(2) have "unat (remain_data_len s) = unat (31 :: u8)" by simp
    then have "remain_data_len s = 31" by (simp only: word_unat_eq_iff)
    with False show ?thesis by simp
  qed
  have w: "run s [(I2C_SLAVE_WRITE_REQUESTED, 0), (I2C_SLAVE_WRITE_RECEIVED, 9)] = Some (s1, [])"
    by (simp add: ssif_bmc_cb_def s1_def)
  from assms fits rdl
  have "\<exists>S. ssif_bmc_cb s1 I2C_SLAVE_READ_REQUESTED 0 = Some (S, remain_data_len s + 1) \<and>
      is_multi_part S \<and> smbus_cmd S = 9 \<and> msg_idx S = 0 \<and> block_num S = 0xFF \<and>
      remain_data_len S = remain_data_len s \<and> wake_ups S = wake_ups s \<and>
      response_buffer S = B"
    by (simp add: ssif_bmc_cb_def event_request_read_def set_response_buffer_def s1_def B_def
                  Let_def n_def off_def)
  then obtain S where rr: "ssif_bmc_cb s1 I2C_SLAVE_READ_REQUESTED 0 =
                             Some (S, remain_data_len s + 1)"
    and S: "is_multi_part S" "smbus_cmd S = 9" "msg_idx S = 0" "block_num S = 0xFF"
      "remain_data_len S = remain_data_len s" "wake_ups S = wake_ups s"
      "response_buffer S = B"
    by blast
  define S' where "S' = complete_response (S\<lparr>msg_idx := n + 1\<rparr>)"
  have reads: "run S (replicate n ?rp) = Some (S\<lparr>msg_idx := n\<rparr>, map B [0 ..< n])"
    using multi_part_read_steps [of S n 0] S n by (simp add: n_def)
  have last: "ssif_bmc_cb (S\<lparr>msg_idx := n\<rparr>) I2C_SLAVE_READ_PROCESSED 0 = Some (S', B n)"
    using multi_part_read_last [of "S\<lparr>msg_idx := n\<rparr>" 0] S n by (simp add: n_def S'_def)
  have stop: "run S' [(I2C_SLAVE_STOP, 0)] = Some (S'\<lparr>msg_idx := 0\<rparr>, [])"
    by (simp add: ssif_bmc_cb_def)
  have tail: "run S (replicate n ?rp @ [?rp] @ [(I2C_SLAVE_STOP, 0)]) =
                Some (S'\<lparr>msg_idx := 0\<rparr>, map B [0 ..< n + 1])"
    unfolding run_append using reads last stop by simp
  have br: "block_read 9 (n + 1) =
              [(I2C_SLAVE_WRITE_REQUESTED, 0), (I2C_SLAVE_WRITE_RECEIVED, 9)] @
              (I2C_SLAVE_READ_REQUESTED, 0) #
              (replicate n ?rp @ [?rp] @ [(I2C_SLAVE_STOP, 0)])"
    by (simp add: block_read_def replicate_append_same)
  have "run s (block_read 9 (n + 1)) =
          Some (S'\<lparr>msg_idx := 0\<rparr>, (remain_data_len s + 1) # map B [0 ..< n + 1])"
    unfolding br run_append using w rr tail by simp
  moreover have "map B [0 ..< n + 1] = 0xFF # map (payload (response s)) [off ..< off + n]"
    unfolding B_def by (rule end_buffer)
  ultimately show ?thesis
    using S
    by (intro exI [of _ "S'\<lparr>msg_idx := 0\<rparr>"])
       (simp add: n_def off_def S'_def complete_response_def wake_up_all_def)
qed


lemma multi_part_start_end:
  assumes "is_multi_part s" and "num_bytes_processed s = 0"
    and "33 \<le> unat (len (response s))" and "unat (len (response s)) \<le> 61"
  shows "\<exists>s'. run s (block_read SSIF_IPMI_RESPONSE 32 @
                      block_read SSIF_IPMI_MULTI_PART_RESPONSE_MIDDLE
                        (unat (len (response s)) - 29)) =
                Some (s', [32, 0, 1] @ take 30 (tl (wire_bytes (response s))) @
                          [len (response s) - 29, 0xFF] @
                          drop 30 (tl (wire_bytes (response s)))) \<and>
              \<not> response_in_progress s' \<and> wake_ups s' = Suc (wake_ups s)"
proof -
  define L where "L = unat (len (response s))"
  define r where "r = response s"
  from assms have L: "33 \<le> L" "L \<le> 61" by (simp_all add: L_def)
  from start_chunk [OF assms(1)] obtain s1 where
    st: "run s (block_read 3 32) =
           Some (s1, 32 # [0, 1, netfn_lun r, cmd r] @ map (payload r) [0 ..< 28])"
    and s1: "is_multi_part s1" "remain_data_len s1 = len r - 30"
      "num_bytes_processed s1 = num_bytes_processed s + 27" "response s1 = r"
      "wake_ups s1 = wake_ups s"
    unfolding r_def by blast
  have "(30 :: u8) \<le> len r"
    using L by (simp add: word_le_nat_alt L_def r_def)
  then have rem: "unat (remain_data_len s1) = L - 30"
    by (simp add: s1 unat_sub L_def r_def)
  have nbp: "unat (num_bytes_processed s1) = 27"
    by (simp add: s1 assms(2))
  have one: "remain_data_len s1 + 1 = len r - 29"
    by (simp add: s1)
  from L have e1: "unat (remain_data_len s1) \<le> 31"
    and e2: "1 + unat (num_bytes_processed s1) + unat (remain_data_len s1) \<le> 252"
    and cnt: "unat (remain_data_len s1) + 1 = L - 29"
    and hi: "1 + unat (num_bytes_processed s1) + unat (remain_data_len s1) = L - 2"
    by (simp_all add: rem nbp)
  from end_chunk [OF s1(1) e1 e2] obtain s2 where
    en0: "run s1 (block_read 9 (unat (remain_data_len s1) + 1)) =
            Some (s2, (remain_data_len s1 + 1) # 0xFF #
                      map (payload (response s1))
                        [1 + unat (num_bytes_processed s1) ..<
                         1 + unat (num_bytes_processed s1) + unat (remain_data_len s1)])"
    and s2: "\<not> response_in_progress s2" "wake_ups s2 = Suc (wake_ups s1)"
    by blast
  have "28 + (L - 30) = L - 2" "Suc (L - 30) = L - 29"
    using L by simp_all
  with en0 have en: "run s1 (block_read 9 (L - 29)) =
           Some (s2, (len r - 29) # 0xFF # map (payload r) [28 ..< L - 2])"
    by (simp add: rem nbp one s1(4))
  have "[0 ..< L - 2] = [0 ..< 28] @ [28 ..< L - 2]"
    using L upt_add_eq_append [of 0 28 "L - 30"] by simp
  then have wb: "tl (wire_bytes r) =
                   (netfn_lun r # cmd r # map (payload r) [0 ..< 28]) @
                   map (payload r) [28 ..< L - 2]"
    by (simp add: wire_bytes_def L_def r_def)
  have tk: "take 30 (tl (wire_bytes r)) = netfn_lun r # cmd r # map (payload r) [0 ..< 28]"
    and dr: "drop 30 (tl (wire_bytes r)) = map (payload r) [28 ..< L - 2]"
    unfolding wb by simp_all
  have "run s (block_read 3 32 @ block_read 9 (L - 29)) =
          Some (s2, [32, 0, 1] @ take 30 (tl (wire_bytes r)) @ [len r - 29, 0xFF] @
                    drop 30 (tl (wire_bytes r)))"
    unfolding run_append tk dr using st en by simp
  then show ?thesis
    using s2 s1(5) unfolding L_def r_def by auto
qed

text \<open>
  Claim C3, as the code has it. From the probed state, the block write
  \<open>[0x02][0x02][0x20][0x01]\<close> (command, length 2, netfn_lun, cmd) completes a request,
  and \<open>receive_ssif_bmc_request\<close> returns the message with length 2, netfn_lun
  \<open>0x20\<close> and cmd \<open>0x01\<close>. A response of 40 bytes on the wire (length field 39) is
  then sent as two block reads: the Start chunk, announced as 32 bytes, with the
  flag bytes \<open>0x00 0x01\<close> and the first 30 bytes of IPMI data, and one End chunk,
  announced as \<open>(39 - 30) + 1 = 10\<close> bytes, with the block number \<open>0xFF\<close> and the
  remaining 9 bytes of data; the End chunk completes the response.
\<close>

theorem end_to_end_scenario:
  "\<exists>s1 s2 s3 s4 m.
     run (ssif_bmc_probe reg) (block_write SSIF_IPMI_REQUEST [2, 0x20, 1]) = Some (s1, []) \<and>
     receive_ssif_bmc_request s1 nb sg = (Returned m, s2) \<and>
     len m = 2 \<and> netfn_lun m = 0x20 \<and> cmd m = 1 \<and>
     length (wire_bytes (resp\<lparr>len := 39\<rparr>)) = 40 \<and>
     send_ssif_bmc_response s2 nb' sg' (resp\<lparr>len := 39\<rparr>) = (Returned (), s3) \<and>
     run s3 (block_read SSIF_IPMI_RESPONSE 32 @
             block_read SSIF_IPMI_MULTI_PART_RESPONSE_MIDDLE 10) =
       Some (s4, [32, 0, 1, netfn_lun resp, cmd resp] @ map (payload resp) [0 ..< 28] @
                 [10, 0xFF] @ map (payload resp) [28 ..< 37]) \<and>
     \<not> response_in_progress s4"
proof -
  define q where "q = zero_msg\<lparr>len := 2, netfn_lun := 0x20, cmd := 1\<rparr>"
  define r where "r = resp\<lparr>len := 39\<rparr>"
  have q: "unat (len q) = 2" "wire_bytes q = [2, 0x20, 1]"
    by (simp_all add: q_def wire_bytes_def zero_msg_def)
  have r: "unat (len r) = 39" "netfn_lun r = netfn_lun resp" "cmd r = cmd resp"
    "payload r = payload resp"
    by (simp_all add: r_def)
  \<comment> \<open>the request\<close>
  from block_write_completes_request [of q "ssif_bmc_probe reg" 2] q obtain s1 where
    w: "run (ssif_bmc_probe reg) (block_write 2 [2, 0x20, 1]) = Some (s1, [])"
    and s1: "request_available s1" "wire_bytes (request s1) = [2, 0x20, 1]"
      "response_in_progress s1 = response_in_progress (ssif_bmc_probe reg)"
      "num_bytes_processed s1 = num_bytes_processed (ssif_bmc_probe reg)"
    by auto
  from s1(2) have m: "len (request s1) = 2" "netfn_lun (request s1) = 0x20"
    "cmd (request s1) = 1"
    by (simp_all add: wire_bytes_def)
  have idle: "\<not> response_in_progress s1" "num_bytes_processed s1 = 0"
    by (simp_all add: s1 ssif_bmc_probe_def)
  define s2 where "s2 = s1\<lparr>request_available := False\<rparr>"
  have rcv: "receive_ssif_bmc_request s1 nb sg = (Returned (request s1), s2)"
    using s1(1) by (simp add: receive_ssif_bmc_request_def wait_event_interruptible_def s2_def)
  \<comment> \<open>the response\<close>
  define s3 where
    "s3 = s2\<lparr>response := r, response_in_progress := True, is_multi_part := True\<rparr>"
  have sent: "send_ssif_bmc_response s2 nb' sg' r = (Returned (), s3)"
    using idle(1) r(1)
    by (simp add: send_ssif_bmc_response_def wait_event_interruptible_def s2_def s3_def
                  ssif_msg_len_def)
  have pre: "is_multi_part s3" "num_bytes_processed s3 = 0"
    "33 \<le> unat (len (response s3))" "unat (len (response s3)) \<le> 61"
    using idle(2) r(1) by (simp_all add: s3_def s2_def)
  from multi_part_start_end [OF pre] obtain s4 where
    rd0: "run s3 (block_read 3 32 @ block_read 9 (unat (len (response s3)) - 29)) =
            Some (s4, [32, 0, 1] @ take 30 (tl (wire_bytes (response s3))) @
                      [len (response s3) - 29, 0xFF] @
                      drop 30 (tl (wire_bytes (response s3))))"
    and fin: "\<not> response_in_progress s4"
    by blast
  have resp3: "response s3 = r"
    by (simp add: s3_def)
  have "[0 ..< 37] = [0 ..< 28] @ [28 ..< 37 :: nat]"
    using upt_add_eq_append [of 0 28 9] by simp
  then have wb: "tl (wire_bytes r) =
                   (netfn_lun resp # cmd resp # map (payload resp) [0 ..< 28]) @
                   map (payload resp) [28 ..< 37]"
    by (simp add: wire_bytes_def r)
  have tk: "take 30 (tl (wire_bytes r)) =
              netfn_lun resp # cmd resp # map (payload resp) [0 ..< 28]"
    and dr: "drop 30 (tl (wire_bytes r)) = map (payload resp) [28 ..< 37]"
    unfolding wb by simp_all
  have cnt: "len r - 29 = 10"
    by (simp add: r_def)
  have rd: "run s3 (block_read 3 32 @ block_read 9 10) =
              Some (s4, [32, 0, 1, netfn_lun resp, cmd resp] @ map (payload resp) [0 ..< 28] @
                        [10, 0xFF] @ map (payload resp) [28 ..< 37])"
    using rd0 unfolding resp3 tk dr cnt r(1) by simp
  have wl: "length (wire_bytes r) = 40"
    by (simp add: wire_bytes_def r)
  show ?thesis
    unfolding r_def [symmetric]
    using w rcv m sent rd fin wl by blast
qed

lemma received_state_reached:
  "run (ssif_bmc_probe 0xFFFF) (block_write SSIF_IPMI_REQUEST [2, 0x20, 1]) =
     Some (received_state, [])"
  by (simp add: block_write_def ssif_bmc_cb_def ssif_bmc_probe_def received_state_def
                msg_set_byte_def ssif_msg_len_def zero_msg_def handle_request_def
                wake_up_all_def aspeed_i2c_disable_slave_def aspeed_i2c_disable_interrupt_def)

text \<open>
  Claim C3, as it is stated, fails twice. After the block write
  \<open>[0x02][0x03][0x20][0x01]\<close> the length byte 3 announces three bytes and two have
  arrived: no request is available, a non-blocking receive fails with \<open>EAGAIN\<close> and a
  blocking one sleeps. And the End chunk of a 40-byte response is announced as 10
  bytes, not 9 (as 11 bytes if 40 is the length field).
\<close>

theorem end_to_end_scenario_as_stated_fails:
  "run (ssif_bmc_probe 0xFFFF) (block_write SSIF_IPMI_REQUEST [3, 0x20, 1]) =
     Some (stalled_state, []) \<and>
   \<not> request_available stalled_state \<and>
   receive_ssif_bmc_request stalled_state True False = (Failed EAGAIN, stalled_state) \<and>
   receive_ssif_bmc_request stalled_state False False = (Sleeping, stalled_state) \<and>
   map_option (last \<circ> snd)
     (run (snd (send_ssif_bmc_response received_state True False (demo_msg 39)))
          (block_read SSIF_IPMI_RESPONSE 32 @
           [(I2C_SLAVE_WRITE_REQUESTED, 0),
            (I2C_SLAVE_WRITE_RECEIVED, SSIF_IPMI_MULTI_PART_RESPONSE_MIDDLE),
            (I2C_SLAVE_READ_REQUESTED, 0)])) = Some 10 \<and>
   map_option (last \<circ> snd)
     (run (snd (send_ssif_bmc_response received_state True False (demo_msg 40)))
          (block_read SSIF_IPMI_RESPONSE 32 @
           [(I2C_SLAVE_WRITE_REQUESTED, 0),
            (I2C_SLAVE_WRITE_RECEIVED, SSIF_IPMI_MULTI_PART_RESPONSE_MIDDLE),
            (I2C_SLAVE_READ_REQUESTED, 0)])) = Some 11"
proof -
  have a: "run (ssif_bmc_probe 0xFFFF) (block_write SSIF_IPMI_REQUEST [3, 0x20, 1]) =
             Some (stalled_state, [])"
    by (simp add: block_write_def ssif_bmc_cb_def ssif_bmc_probe_def stalled_state_def
                  msg_set_byte_def ssif_msg_len_def zero_msg_def)
  have b: "\<not> request_available stalled_state"
    by (simp add: stalled_state_def ssif_bmc_probe_def)
  have c: "receive_ssif_bmc_request stalled_state True False = (Failed EAGAIN, stalled_state)"
    "receive_ssif_bmc_request stalled_state False False = (Sleeping, stalled_state)"
    using b by (simp_all add: receive_ssif_bmc_request_def wait_event_interruptible_def)
  have d: "map_option (last \<circ> snd)
     (run (snd (send_ssif_bmc_response received_state True False (demo_msg 39)))
          (block_read SSIF_IPMI_RESPONSE 32 @
           [(I2C_SLAVE_WRITE_REQUESTED, 0),
            (I2C_SLAVE_WRITE_RECEIVED, SSIF_IPMI_MULTI_PART_RESPONSE_MIDDLE),
            (I2C_SLAVE_READ_REQUESTED, 0)])) = Some 10"
    by code_simp
  have e: "map_option (last \<circ> snd)
     (run (snd (send_ssif_bmc_response received_state True False (demo_msg 40)))
          (block_read SSIF_IPMI_RESPONSE 32 @
           [(I2C_SLAVE_WRITE_REQUESTED, 0),
            (I2C_SLAVE_WRITE_RECEIVED, SSIF_IPMI_MULTI_PART_RESPONSE_MIDDLE),
            (I2C_SLAVE_READ_REQUESTED, 0)])) = Some 11"
    by code_simp
  from a b c d e show ?thesis by simp
qed

text \<open>
  Claim C1 at a response of 63 bytes on the wire (length field 62), sent from the
  probed state and read as a Start, a Middle and an End chunk. The chunks should carry
  30, 31 and 1 bytes of IPMI data. The Middle chunk is announced as 32 bytes, but
  \<open>remain_data_len\<close> has already been reduced from 32 to 1 when
  \<open>set_response_buffer\<close> sizes the copy: one byte of payload is copied, and the other
  30 bytes of the chunk are what the Start chunk left in the buffer. The End chunk
  then carries \<open>payload[29]\<close> where \<open>payload[59]\<close> is due. The data of the three
  chunks together is as long as the message and differs from it.
\<close>

theorem multi_part_middle_chunk_stale:
  "is_multi_part (snd (send_ssif_bmc_response (ssif_bmc_probe 0xFFFF) True False (demo_msg 62))) \<and>
   map_option snd
     (run (snd (send_ssif_bmc_response (ssif_bmc_probe 0xFFFF) True False (demo_msg 62)))
          (block_read SSIF_IPMI_RESPONSE 32 @
           block_read SSIF_IPMI_MULTI_PART_RESPONSE_MIDDLE 32 @
           block_read SSIF_IPMI_MULTI_PART_RESPONSE_MIDDLE 2)) =
     Some ([32, 0, 1] @ ([0xA0, 0xB0] @ map (payload (demo_msg 62)) [0 ..< 28]) @
           [32, 0] @ (payload (demo_msg 62) 28 # [0xA0, 0xB0] @
                      map (payload (demo_msg 62)) [0 ..< 28]) @
           [2, 0xFF] @ [payload (demo_msg 62) 29]) \<and>
   length (([0xA0, 0xB0] @ map (payload (demo_msg 62)) [0 ..< 28]) @
           (payload (demo_msg 62) 28 # [0xA0, 0xB0] @ map (payload (demo_msg 62)) [0 ..< 28]) @
           [payload (demo_msg 62) 29]) = 62 \<and>
   ([0xA0, 0xB0] @ map (payload (demo_msg 62)) [0 ..< 28]) @
   (payload (demo_msg 62) 28 # [0xA0, 0xB0] @ map (payload (demo_msg 62)) [0 ..< 28]) @
   [payload (demo_msg 62) 29] \<noteq> tl (wire_bytes (demo_msg 62))"
  by code_simp

end
